theory Spec2Isabelle
  imports Complex_Main "HOL-Library.Char_ord" "HOL-Library.List_Lexorder"
begin

section \<open>Parking API: the data model of main.py\<close>

text \<open>
  The three ORM tables of \<^verbatim>\<open>main.py\<close>. A \<^verbatim>\<open>Float\<close> column is a \<^typ>\<open>real\<close>
  (floating point is idealised: no rounding, no NaN), an \<^verbatim>\<open>Integer\<close> column an
  \<^typ>\<open>int\<close>, a \<^verbatim>\<open>Text\<close> or \<^verbatim>\<open>String\<close> column a \<^typ>\<open>string\<close>. The time
  columns of a reservation are strings, as in the source
  (\<^verbatim>\<open>start_time = Column(String, ...)  # store as ISO string\<close>), and they are compared
  as strings, character by character (theories \<open>Char_ord\<close> and \<open>List_Lexorder\<close>).
\<close>

record parking_lot =
  l_id :: int
  l_name :: string
  l_latitude :: real
  l_longitude :: real

record parking_spot =
  s_id :: int
  s_lot_id :: int
  s_number :: string
  s_type :: string
  s_is_available :: bool

record reservation =
  r_id :: int
  r_spot_id :: int
  r_start_time :: string
  r_end_time :: string
  r_vehicle_plate :: string
  r_status :: string

text \<open>
  The database session: the rows of each table in insertion order, and the next value
  of each table's primary-key sequence (the keys are assigned by the database on
  \<^verbatim>\<open>db.commit()\<close>; a sequence starts at 1 and never hands a value out twice).
\<close>

record database =
  lots :: "parking_lot list"
  spots :: "parking_spot list"
  reservations :: "reservation list"
  lot_seq :: int
  spot_seq :: int
  reservation_seq :: int

definition empty_db :: database where
  "empty_db = \<lparr>lots = [], spots = [], reservations = [],
                lot_seq = 1, spot_seq = 1, reservation_seq = 1\<rparr>"

text \<open>
  Errors. \<^verbatim>\<open>raise HTTPException(code, detail)\<close> is \<open>HTTPException code detail\<close>: 404 is the
  spec's NotFound, 409 its Conflict, 400 its InvalidState. \<open>ValidationError\<close> is the 422
  answer FastAPI gives when a pydantic schema or a \<^verbatim>\<open>Query\<close> bound rejects the request,
  before the handler runs. \<open>KeyError\<close> is Python's, from \<^verbatim>\<open>lot_map[s.lot_id]\<close>.
\<close>

datatype error = HTTPException nat string | ValidationError | KeyError

subsection \<open>Schemas\<close>

text \<open>
  A \<^verbatim>\<open>datetime\<close> of the request, without time zone (a naive datetime; zone-aware values
  are outside this model). Python compares two naive datetimes field by field, from the
  year down to the microsecond.
\<close>

record datetime =
  dt_year :: nat
  dt_month :: nat
  dt_day :: nat
  dt_hour :: nat
  dt_minute :: nat
  dt_second :: nat
  dt_microsecond :: nat

definition dt_fields :: "datetime \<Rightarrow> nat list" where
  "dt_fields d = [dt_year d, dt_month d, dt_day d, dt_hour d, dt_minute d, dt_second d,
                  dt_microsecond d]"

definition dt_le :: "datetime \<Rightarrow> datetime \<Rightarrow> bool" where
  "dt_le a b = (dt_fields a \<le> dt_fields b)"

definition digit_char :: "nat \<Rightarrow> char" where
  "digit_char d = ''0123456789'' ! (d mod 10)"

text \<open>\<open>zpad w n\<close> is \<^verbatim>\<open>"%0wd" % n\<close> for \<open>n < 10 ^ w\<close>, which the fields of a datetime are.\<close>

fun zpad :: "nat \<Rightarrow> nat \<Rightarrow> string" where
  "zpad 0 n = []"
| "zpad (Suc w) n = zpad w (n div 10) @ [digit_char n]"

text \<open>
  \<^verbatim>\<open>datetime.isoformat()\<close> of a naive datetime: \<^verbatim>\<open>YYYY-MM-DDTHH:MM:SS\<close>, followed by
  \<^verbatim>\<open>.ffffff\<close> when the microsecond is not zero.
\<close>

definition isoformat :: "datetime \<Rightarrow> string" where
  "isoformat d =
     zpad 4 (dt_year d) @ ''-'' @ zpad 2 (dt_month d) @ ''-'' @ zpad 2 (dt_day d) @ ''T'' @
     zpad 2 (dt_hour d) @ '':'' @ zpad 2 (dt_minute d) @ '':'' @ zpad 2 (dt_second d) @
     (if dt_microsecond d = 0 then [] else ''.'' @ zpad 6 (dt_microsecond d))"

record lot_create =
  lc_name :: string
  lc_latitude :: real
  lc_longitude :: real

record spot_create =
  sc_number :: string
  sc_type :: string

record reserve_create =
  rc_spot_id :: int
  rc_start_time :: datetime
  rc_end_time :: datetime
  rc_vehicle_plate :: string

text \<open>
  \<^verbatim>\<open>class LotCreate(BaseModel)\<close>: three typed fields and no constraint on any of them, so
  every name and every pair of numbers is accepted.
\<close>

definition LotCreate :: "string \<Rightarrow> real \<Rightarrow> real \<Rightarrow> error + lot_create" where
  "LotCreate name latitude longitude =
     Inr \<lparr>lc_name = name, lc_latitude = latitude, lc_longitude = longitude\<rparr>"

text \<open>
  \<^verbatim>\<open>class SpotCreate\<close>: \<^verbatim>\<open>type: str = Field(default="car", pattern="^(car|bike|ev)$")\<close>.
  The request may leave \<^verbatim>\<open>type\<close> out (\<open>None\<close>); then the default is taken.
\<close>

definition SpotCreate :: "string \<Rightarrow> string option \<Rightarrow> error + spot_create" where
  "SpotCreate number ty =
     (case ty of
        None \<Rightarrow> Inr \<lparr>sc_number = number, sc_type = ''car''\<rparr>
      | Some t \<Rightarrow>
          if t = ''car'' \<or> t = ''bike'' \<or> t = ''ev''
          then Inr \<lparr>sc_number = number, sc_type = t\<rparr>
          else Inl ValidationError)"

text \<open>
  \<^verbatim>\<open>ReserveCreate.check_order\<close>: \<^verbatim>\<open>if st and v <= st: raise ValueError(...)\<close>; a datetime
  is always truthy, so the test is \<^verbatim>\<open>v <= st\<close>.
\<close>

definition check_order :: "datetime \<Rightarrow> datetime \<Rightarrow> error + datetime" where
  "check_order v st = (if dt_le v st then Inl ValidationError else Inr v)"

definition ReserveCreate ::
  "int \<Rightarrow> datetime \<Rightarrow> datetime \<Rightarrow> string \<Rightarrow> error + reserve_create" where
  "ReserveCreate spot_id start_time end_time vehicle_plate =
     (case check_order end_time start_time of
        Inl e \<Rightarrow> Inl e
      | Inr v \<Rightarrow> Inr \<lparr>rc_spot_id = spot_id, rc_start_time = start_time, rc_end_time = v,
                     rc_vehicle_plate = vehicle_plate\<rparr>)"

subsection \<open>Lots\<close>

text \<open>\<^verbatim>\<open>create_lot\<close>: add the row, commit, return it with its key.\<close>

definition create_lot :: "database \<Rightarrow> lot_create \<Rightarrow> error + database \<times> parking_lot" where
  "create_lot db payload =
     (let lot = \<lparr>l_id = lot_seq db, l_name = lc_name payload,
                 l_latitude = lc_latitude payload, l_longitude = lc_longitude payload\<rparr>
      in Inr (db\<lparr>lots := lots db @ [lot], lot_seq := lot_seq db + 1\<rparr>, lot))"

definition createLot ::
  "database \<Rightarrow> string \<Rightarrow> real \<Rightarrow> real \<Rightarrow> error + database \<times> parking_lot" where
  "createLot db name latitude longitude =
     (case LotCreate name latitude longitude of
        Inl e \<Rightarrow> Inl e
      | Inr payload \<Rightarrow> create_lot db payload)"

definition list_lots :: "database \<Rightarrow> parking_lot list" where
  "list_lots db = lots db"

subsection \<open>Spots\<close>

text \<open>\<^verbatim>\<open>db.get(Model, key)\<close>: the row with that primary key, or \<open>None\<close>.\<close>

definition get_lot :: "database \<Rightarrow> int \<Rightarrow> parking_lot option" where
  "get_lot db i = find (\<lambda>l. l_id l = i) (lots db)"

definition get_spot :: "database \<Rightarrow> int \<Rightarrow> parking_spot option" where
  "get_spot db i = find (\<lambda>s. s_id s = i) (spots db)"

definition get_reservation :: "database \<Rightarrow> int \<Rightarrow> reservation option" where
  "get_reservation db i = find (\<lambda>r. r_id r = i) (reservations db)"

definition create_spot ::
  "database \<Rightarrow> int \<Rightarrow> spot_create \<Rightarrow> error + database \<times> parking_spot" where
  "create_spot db lot_id payload =
     (case get_lot db lot_id of
        None \<Rightarrow> Inl (HTTPException 404 ''Lot not found'')
      | Some lot \<Rightarrow>
          (case find (\<lambda>s. s_lot_id s = lot_id \<and> s_number s = sc_number payload) (spots db) of
             Some exists \<Rightarrow> Inl (HTTPException 409 ''Spot number already exists in this lot'')
           | None \<Rightarrow>
               (let spot = \<lparr>s_id = spot_seq db, s_lot_id = lot_id, s_number = sc_number payload,
                            s_type = sc_type payload, s_is_available = True\<rparr>
                in Inr (db\<lparr>spots := spots db @ [spot], spot_seq := spot_seq db + 1\<rparr>, spot))))"

definition createSpot ::
  "database \<Rightarrow> int \<Rightarrow> string \<Rightarrow> string option \<Rightarrow> error + database \<times> parking_spot" where
  "createSpot db lot_id number ty =
     (case SpotCreate number ty of
        Inl e \<Rightarrow> Inl e
      | Inr payload \<Rightarrow> create_spot db lot_id payload)"

definition list_spots :: "database \<Rightarrow> bool \<Rightarrow> parking_spot list" where
  "list_spots db only_available =
     (if only_available then filter s_is_available (spots db) else spots db)"

text \<open>Assigning to an attribute of the row fetched by key updates the row of that key.\<close>

definition set_available :: "int \<Rightarrow> bool \<Rightarrow> parking_spot list \<Rightarrow> parking_spot list" where
  "set_available i b ss = map (\<lambda>s. if s_id s = i then s\<lparr>s_is_available := b\<rparr> else s) ss"

definition set_status :: "int \<Rightarrow> string \<Rightarrow> reservation list \<Rightarrow> reservation list" where
  "set_status i st rs = map (\<lambda>r. if r_id r = i then r\<lparr>r_status := st\<rparr> else r) rs"

definition release_spot :: "database \<Rightarrow> int \<Rightarrow> error + database \<times> parking_spot" where
  "release_spot db spot_id =
     (case get_spot db spot_id of
        None \<Rightarrow> Inl (HTTPException 404 ''Spot not found'')
      | Some spot \<Rightarrow>
          Inr (db\<lparr>spots := set_available spot_id True (spots db)\<rparr>,
               spot\<lparr>s_is_available := True\<rparr>))"

subsection \<open>Reservations\<close>

text \<open>
  The overlap query of \<^verbatim>\<open>create_reservation\<close>:
  \<^verbatim>\<open>Reservation.spot_id == payload.spot_id, Reservation.status == "active",
  or_(and_(Reservation.start_time <= et.isoformat(), Reservation.end_time > st.isoformat()))\<close>.
\<close>

definition overlap_query :: "int \<Rightarrow> string \<Rightarrow> string \<Rightarrow> reservation \<Rightarrow> bool" where
  "overlap_query spot_id st et r =
     (r_spot_id r = spot_id \<and> r_status r = ''active'' \<and>
      (r_start_time r \<le> et \<and> r_end_time r > st))"

definition create_reservation ::
  "database \<Rightarrow> reserve_create \<Rightarrow> error + database \<times> reservation" where
  "create_reservation db payload =
     (case get_spot db (rc_spot_id payload) of
        None \<Rightarrow> Inl (HTTPException 404 ''Spot not found'')
      | Some spot \<Rightarrow>
          (let st = rc_start_time payload; et = rc_end_time payload in
           case find (overlap_query (rc_spot_id payload) (isoformat st) (isoformat et))
                     (reservations db) of
             Some overlap \<Rightarrow>
               Inl (HTTPException 409 ''Spot already reserved for the selected time range'')
           | None \<Rightarrow>
               (let r = \<lparr>r_id = reservation_seq db, r_spot_id = rc_spot_id payload,
                         r_start_time = isoformat (rc_start_time payload),
                         r_end_time = isoformat (rc_end_time payload),
                         r_vehicle_plate = rc_vehicle_plate payload,
                         r_status = ''active''\<rparr>
                in Inr (db\<lparr>spots := set_available (rc_spot_id payload) False (spots db),
                            reservations := reservations db @ [r],
                            reservation_seq := reservation_seq db + 1\<rparr>, r))))"

definition createReservation ::
  "database \<Rightarrow> int \<Rightarrow> datetime \<Rightarrow> datetime \<Rightarrow> string \<Rightarrow> error + database \<times> reservation" where
  "createReservation db spot_id start_time end_time vehicle_plate =
     (case ReserveCreate spot_id start_time end_time vehicle_plate of
        Inl e \<Rightarrow> Inl e
      | Inr payload \<Rightarrow> create_reservation db payload)"

text \<open>
  \<^verbatim>\<open>end_reservation\<close>. The spot is looked up by the reservation's \<^verbatim>\<open>spot_id\<close> and freed
  \<^verbatim>\<open>if spot:\<close>; updating the rows of that key does nothing when there is none.
\<close>

definition end_reservation :: "database \<Rightarrow> int \<Rightarrow> error + database \<times> reservation" where
  "end_reservation db reservation_id =
     (case get_reservation db reservation_id of
        None \<Rightarrow> Inl (HTTPException 404 ''Reservation not found'')
      | Some r \<Rightarrow>
          if r_status r \<noteq> ''active''
          then Inl (HTTPException 400 ''Reservation already ended or cancelled'')
          else Inr (db\<lparr>spots := set_available (r_spot_id r) True (spots db),
                       reservations := set_status reservation_id ''ended'' (reservations db)\<rparr>,
                    r\<lparr>r_status := ''ended''\<rparr>))"

subsection \<open>Nearby search\<close>

text \<open>
  \<^verbatim>\<open>haversine_m\<close>, with \<^verbatim>\<open>math.radians\<close>, over the reals. In the reals the argument of
  \<^verbatim>\<open>math.sqrt\<close> and \<^verbatim>\<open>math.asin\<close> lies in the interval from 0 to 1 for all inputs
  (lemma \<open>haversine_arg_range\<close> below), so neither raises.
\<close>

definition radians :: "real \<Rightarrow> real" where
  "radians x = x * pi / 180"

definition haversine_arg :: "real \<Rightarrow> real \<Rightarrow> real \<Rightarrow> real \<Rightarrow> real" where
  "haversine_arg lat1 lon1 lat2 lon2 =
     (let phi1 = radians lat1; phi2 = radians lat2;
          dphi = radians (lat2 - lat1);
          dl = radians (lon2 - lon1)
      in (sin (dphi / 2))\<^sup>2 + cos phi1 * cos phi2 * (sin (dl / 2))\<^sup>2)"















subsection \<open>Reachable states\<close>

text \<open>
  The states the API reaches from the empty database when the requests are served one at
  a time: each rule is one successful call of a mutating endpoint, run from its first
  read to its commit with no other request in between (a failed call changes nothing,
  and the listing and search endpoints only read). Requests whose reads and writes
  interleave are modelled apart, by \<open>interleaved\<close> below.
\<close>

inductive reachable :: "database \<Rightarrow> bool" where
  reach_empty: "reachable empty_db"
| reach_lot:
    "reachable db \<Longrightarrow> createLot db name latitude longitude = Inr (db', lot) \<Longrightarrow> reachable db'"
| reach_spot:
    "reachable db \<Longrightarrow> createSpot db lot_id number ty = Inr (db', spot) \<Longrightarrow> reachable db'"
| reach_release:
    "reachable db \<Longrightarrow> release_spot db spot_id = Inr (db', spot) \<Longrightarrow> reachable db'"
| reach_reserve:
    "reachable db \<Longrightarrow> createReservation db spot_id st et plate = Inr (db', r) \<Longrightarrow> reachable db'"
| reach_end:
    "reachable db \<Longrightarrow> end_reservation db reservation_id = Inr (db', r) \<Longrightarrow> reachable db'"


subsection \<open>Requests and their outcome\<close>

text \<open>
  The database after a request. The session of a request that raises is closed without
  a commit, so the database is the one the request found; otherwise it is the one the
  handler committed.
\<close>

definition after :: "database \<Rightarrow> error + database \<times> 'a \<Rightarrow> database" where
  "after db res = (case res of Inl e \<Rightarrow> db | Inr (db', x) \<Rightarrow> db')"

text \<open>Whether a request succeeded.\<close>

definition succeeds :: "error + 'a \<Rightarrow> bool" where
  "succeeds res = (case res of Inl e \<Rightarrow> False | Inr x \<Rightarrow> True)"

text \<open>The row \<^verbatim>\<open>create_reservation\<close> builds, with the key the database assigns.\<close>

definition new_reservation ::
  "database \<Rightarrow> int \<Rightarrow> datetime \<Rightarrow> datetime \<Rightarrow> string \<Rightarrow> reservation" where
  "new_reservation db sid st et plate =
     \<lparr>r_id = reservation_seq db, r_spot_id = sid, r_start_time = isoformat st,
      r_end_time = isoformat et, r_vehicle_plate = plate, r_status = ''active''\<rparr>"

text \<open>The row \<^verbatim>\<open>create_spot\<close> builds.\<close>

definition new_spot :: "database \<Rightarrow> int \<Rightarrow> string \<Rightarrow> string option \<Rightarrow> parking_spot" where
  "new_spot db lot_id number ty =
     \<lparr>s_id = spot_seq db, s_lot_id = lot_id, s_number = number,
      s_type = (case ty of None \<Rightarrow> ''car'' | Some t \<Rightarrow> t), s_is_available = True\<rparr>"

text \<open>The row \<^verbatim>\<open>create_lot\<close> builds.\<close>

definition new_lot :: "database \<Rightarrow> string \<Rightarrow> real \<Rightarrow> real \<Rightarrow> parking_lot" where
  "new_lot db name latitude longitude =
     \<lparr>l_id = lot_seq db, l_name = name, l_latitude = latitude, l_longitude = longitude\<rparr>"

text \<open>The active reservations of a spot.\<close>

definition active_on :: "database \<Rightarrow> int \<Rightarrow> reservation list" where
  "active_on db sid =
     filter (\<lambda>r. r_spot_id r = sid \<and> r_status r = ''active'') (reservations db)"

text \<open>
  The specification's overlap test of an existing reservation against a requested
  window, on the stored ISO strings: \<^verbatim>\<open>existing.start < new.end AND existing.end > new.start\<close>.
\<close>

definition spec_overlap :: "string \<Rightarrow> string \<Rightarrow> reservation \<Rightarrow> bool" where
  "spec_overlap st et r = (r_start_time r < et \<and> r_end_time r > st)"

text \<open>Two reservations whose windows overlap (glossary: \<open>s1 < e2\<close> and \<open>s2 < e1\<close>).\<close>

definition windows_overlap :: "reservation \<Rightarrow> reservation \<Rightarrow> bool" where
  "windows_overlap a b = (r_start_time a < r_end_time b \<and> r_start_time b < r_end_time a)"

text \<open>The invariants as the specification words them.\<close>

definition availability_iff_active :: "database \<Rightarrow> bool" where
  "availability_iff_active db =
     (\<forall>s\<in>set (spots db). (\<not> s_is_available s) = (active_on db (s_id s) \<noteq> []))"

definition at_most_one_active :: "database \<Rightarrow> bool" where
  "at_most_one_active db = (\<forall>s\<in>set (spots db). length (active_on db (s_id s)) \<le> 1)"

text \<open>The range check the specification asks of \<open>createLot\<close>.\<close>

definition lot_in_range :: "string \<Rightarrow> real \<Rightarrow> real \<Rightarrow> bool" where
  "lot_in_range name latitude longitude =
     (name \<noteq> [] \<and> - 90 \<le> latitude \<and> latitude \<le> 90 \<and> - 180 \<le> longitude \<and> longitude \<le> 180)"

subsection \<open>A small scenario\<close>

text \<open>
  One lot at the origin with one spot; then a reservation of the spot from 11:00 to
  12:00; times are on 1 January 2024.
\<close>

definition at_hour :: "nat \<Rightarrow> datetime" where
  "at_hour h = \<lparr>dt_year = 2024, dt_month = 1, dt_day = 1, dt_hour = h, dt_minute = 0,
                dt_second = 0, dt_microsecond = 0\<rparr>"

definition lot1 :: parking_lot where
  "lot1 = \<lparr>l_id = 1, l_name = ''Lot'', l_latitude = 0, l_longitude = 0\<rparr>"

definition spot1 :: parking_spot where
  "spot1 = \<lparr>s_id = 1, s_lot_id = 1, s_number = ''A1'', s_type = ''car'', s_is_available = True\<rparr>"

definition res1 :: reservation where
  "res1 = \<lparr>r_id = 1, r_spot_id = 1, r_start_time = ''2024-01-01T11:00:00'',
           r_end_time = ''2024-01-01T12:00:00'', r_vehicle_plate = ''KA01'',
           r_status = ''active''\<rparr>"

definition res2 :: reservation where
  "res2 = \<lparr>r_id = 2, r_spot_id = 1, r_start_time = ''2024-01-01T13:00:00'',
           r_end_time = ''2024-01-01T14:00:00'', r_vehicle_plate = ''MH02'',
           r_status = ''active''\<rparr>"

definition db_lot :: database where
  "db_lot = \<lparr>lots = [lot1], spots = [], reservations = [],
             lot_seq = 2, spot_seq = 1, reservation_seq = 1\<rparr>"

definition db_spot :: database where
  "db_spot = \<lparr>lots = [lot1], spots = [spot1], reservations = [],
              lot_seq = 2, spot_seq = 2, reservation_seq = 1\<rparr>"

definition db_reserved :: database where
  "db_reserved = \<lparr>lots = [lot1], spots = [spot1\<lparr>s_is_available := False\<rparr>],
                  reservations = [res1], lot_seq = 2, spot_seq = 2, reservation_seq = 2\<rparr>"

text \<open>The spot released by the administrator while its reservation is still active.\<close>

definition db_released :: database where
  "db_released = \<lparr>lots = [lot1], spots = [spot1], reservations = [res1],
                  lot_seq = 2, spot_seq = 2, reservation_seq = 2\<rparr>"

text \<open>A second reservation of the same spot, from 13:00 to 14:00.\<close>

definition db_reserved_twice :: database where
  "db_reserved_twice = \<lparr>lots = [lot1], spots = [spot1\<lparr>s_is_available := False\<rparr>],
                        reservations = [res1, res2],
                        lot_seq = 2, spot_seq = 2, reservation_seq = 3\<rparr>"

text \<open>The first reservation ended.\<close>

definition db_ended :: database where
  "db_ended = \<lparr>lots = [lot1], spots = [spot1],
               reservations = [res1\<lparr>r_status := ''ended''\<rparr>],
               lot_seq = 2, spot_seq = 2, reservation_seq = 2\<rparr>"

text \<open>A second lot, so that a label can be used again.\<close>

definition lot2 :: parking_lot where
  "lot2 = \<lparr>l_id = 2, l_name = ''Other'', l_latitude = 1, l_longitude = 1\<rparr>"

definition db_two_lots :: database where
  "db_two_lots = \<lparr>lots = [lot1, lot2], spots = [spot1], reservations = [],
                  lot_seq = 3, spot_seq = 2, reservation_seq = 1\<rparr>"




text \<open>What does hold of the reachable states (see the invariants section).\<close>

definition keys_ok :: "database \<Rightarrow> bool" where
  "keys_ok db =
     (distinct (map r_id (reservations db)) \<and>
      (\<forall>r\<in>set (reservations db). r_id r < reservation_seq db))"

definition unavailable_has_active :: "database \<Rightarrow> bool" where
  "unavailable_has_active db =
     (\<forall>s\<in>set (spots db). \<not> s_is_available s \<longrightarrow> active_on db (s_id s) \<noteq> [])"

definition no_active_overlap :: "database \<Rightarrow> bool" where
  "no_active_overlap db =
     (\<forall>i j. i < j \<and> j < length (reservations db) \<and>
            r_status (reservations db ! i) = ''active'' \<and>
            r_status (reservations db ! j) = ''active'' \<and>
            r_spot_id (reservations db ! i) = r_spot_id (reservations db ! j) \<longrightarrow>
            \<not> windows_overlap (reservations db ! i) (reservations db ! j))"


subsection \<open>Interleaved requests\<close>

text \<open>
  The handlers are plain functions, which the framework runs on a pool of threads, each
  with a session of its own, and nothing in \<^verbatim>\<open>create_reservation\<close> locks the spot: between
  the reads of one request (the lookup of the spot and the overlap query) and its writes
  (the flag, the new row, the commit) another request may run. These are the two parts
  of \<^verbatim>\<open>create_reservation\<close>.
\<close>

definition create_reservation_check :: "database \<Rightarrow> reserve_create \<Rightarrow> error + parking_spot" where
  "create_reservation_check db payload =
     (case get_spot db (rc_spot_id payload) of
        None \<Rightarrow> Inl (HTTPException 404 ''Spot not found'')
      | Some spot \<Rightarrow>
          (let st = rc_start_time payload; et = rc_end_time payload in
           case find (overlap_query (rc_spot_id payload) (isoformat st) (isoformat et))
                     (reservations db) of
             Some overlap \<Rightarrow>
               Inl (HTTPException 409 ''Spot already reserved for the selected time range'')
           | None \<Rightarrow> Inr spot))"

definition create_reservation_commit :: "database \<Rightarrow> reserve_create \<Rightarrow> database \<times> reservation" where
  "create_reservation_commit db payload =
     (let r = \<lparr>r_id = reservation_seq db, r_spot_id = rc_spot_id payload,
               r_start_time = isoformat (rc_start_time payload),
               r_end_time = isoformat (rc_end_time payload),
               r_vehicle_plate = rc_vehicle_plate payload,
               r_status = ''active''\<rparr>
      in (db\<lparr>spots := set_available (rc_spot_id payload) False (spots db),
             reservations := reservations db @ [r],
             reservation_seq := reservation_seq db + 1\<rparr>, r))"

text \<open>
  The states reached when reservation requests interleave: the database, and the
  requests that have passed their reads and not yet written. The other endpoints are
  taken as single steps.
\<close>

inductive interleaved :: "database \<Rightarrow> reserve_create list \<Rightarrow> bool" where
  il_empty: "interleaved empty_db []"
| il_lot:
    "interleaved db ps \<Longrightarrow> createLot db name latitude longitude = Inr (db', lot) \<Longrightarrow>
     interleaved db' ps"
| il_spot:
    "interleaved db ps \<Longrightarrow> createSpot db lot_id number ty = Inr (db', spot) \<Longrightarrow>
     interleaved db' ps"
| il_release:
    "interleaved db ps \<Longrightarrow> release_spot db spot_id = Inr (db', spot) \<Longrightarrow> interleaved db' ps"
| il_end:
    "interleaved db ps \<Longrightarrow> end_reservation db reservation_id = Inr (db', r) \<Longrightarrow>
     interleaved db' ps"
| il_check:
    "interleaved db ps \<Longrightarrow> ReserveCreate spot_id st et plate = Inr payload \<Longrightarrow>
     create_reservation_check db payload = Inr spot \<Longrightarrow> interleaved db (payload # ps)"
| il_commit:
    "interleaved db ps \<Longrightarrow> payload \<in> set ps \<Longrightarrow>
     create_reservation_commit db payload = (db', r) \<Longrightarrow> interleaved db' (remove1 payload ps)"

text \<open>
  Two requests for spot 1 from 11:00 to 12:00, both read before either writes: what the
  second write leaves.
\<close>

definition req1 :: reserve_create where
  "req1 = \<lparr>rc_spot_id = 1, rc_start_time = at_hour 11, rc_end_time = at_hour 12,
           rc_vehicle_plate = ''KA01''\<rparr>"

definition db_race :: database where
  "db_race = \<lparr>lots = [lot1], spots = [spot1\<lparr>s_is_available := False\<rparr>],
              reservations = [res1, res1\<lparr>r_id := 2\<rparr>],
              lot_seq = 2, spot_seq = 2, reservation_seq = 3\<rparr>"


section \<open>The endpoints, case by case\<close>

lemma createReservation_unfold:
  "createReservation db sid st et plate =
     (if dt_le et st then Inl ValidationError
      else case get_spot db sid of
        None \<Rightarrow> Inl (HTTPException 404 ''Spot not found'')
      | Some spot \<Rightarrow>
          (case find (overlap_query sid (isoformat st) (isoformat et)) (reservations db) of
             Some overlap \<Rightarrow>
               Inl (HTTPException 409 ''Spot already reserved for the selected time range'')
           | None \<Rightarrow>
               Inr (db\<lparr>spots := set_available sid False (spots db),
                       reservations := reservations db @ [new_reservation db sid st et plate],
                       reservation_seq := reservation_seq db + 1\<rparr>,
                    new_reservation db sid st et plate)))"
  by (simp add: createReservation_def ReserveCreate_def check_order_def create_reservation_def
      new_reservation_def Let_def split: option.split)

lemma createReservation_InrD:
  assumes "createReservation db sid st et plate = Inr (db', r)"
  shows "\<not> dt_le et st" and "\<exists>spot. get_spot db sid = Some spot"
    and "find (overlap_query sid (isoformat st) (isoformat et)) (reservations db) = None"
    and "r = new_reservation db sid st et plate"
    and "db' = db\<lparr>spots := set_available sid False (spots db),
                  reservations := reservations db @ [r],
                  reservation_seq := reservation_seq db + 1\<rparr>"
  using assms unfolding createReservation_unfold
  by (auto split: if_splits option.splits)

lemma createSpot_unfold:
  "createSpot db lot_id number ty =
     (if ty = None \<or> ty = Some ''car'' \<or> ty = Some ''bike'' \<or> ty = Some ''ev'' then
        (case get_lot db lot_id of
           None \<Rightarrow> Inl (HTTPException 404 ''Lot not found'')
         | Some lot \<Rightarrow>
             (case find (\<lambda>s. s_lot_id s = lot_id \<and> s_number s = number) (spots db) of
                Some e \<Rightarrow> Inl (HTTPException 409 ''Spot number already exists in this lot'')
              | None \<Rightarrow>
                  Inr (db\<lparr>spots := spots db @ [new_spot db lot_id number ty],
                          spot_seq := spot_seq db + 1\<rparr>,
                       new_spot db lot_id number ty)))
      else Inl ValidationError)"
  by (cases ty)
    (auto simp: createSpot_def SpotCreate_def create_spot_def new_spot_def Let_def
      split: option.split)

lemma createSpot_InrD:
  assumes "createSpot db lot_id number ty = Inr (db', spot)"
  shows "spot = new_spot db lot_id number ty"
    and "db' = db\<lparr>spots := spots db @ [spot], spot_seq := spot_seq db + 1\<rparr>"
  using assms unfolding createSpot_unfold
  by (auto split: if_splits option.splits)

lemma createLot_unfold:
  "createLot db name latitude longitude =
     Inr (db\<lparr>lots := lots db @ [new_lot db name latitude longitude], lot_seq := lot_seq db + 1\<rparr>,
          new_lot db name latitude longitude)"
  by (simp add: createLot_def LotCreate_def create_lot_def new_lot_def Let_def)

lemma release_spot_InrD:
  assumes "release_spot db spot_id = Inr (db', spot)"
  shows "db' = db\<lparr>spots := set_available spot_id True (spots db)\<rparr>"
  using assms by (auto simp: release_spot_def split: option.splits)

lemma end_reservation_InrD:
  assumes "end_reservation db rid = Inr (db', r')"
  shows "\<exists>r. get_reservation db rid = Some r \<and> r_status r = ''active'' \<and>
             r' = r\<lparr>r_status := ''ended''\<rparr> \<and>
             db' = db\<lparr>spots := set_available (r_spot_id r) True (spots db),
                      reservations := set_status rid ''ended'' (reservations db)\<rparr>"
  using assms by (auto simp: end_reservation_def split: option.splits if_splits)

lemma find_SomeD: "find P xs = Some x \<Longrightarrow> x \<in> set xs \<and> P x"
  by (induction xs) (auto split: if_splits)

lemma find_None_set: "(find P xs = None) = (\<forall>x\<in>set xs. \<not> P x)"
  by (induction xs) auto

lemma find_set_status:
  "find (\<lambda>r. r_id r = i) rs = Some r \<Longrightarrow>
   find (\<lambda>r. r_id r = i) (set_status i st rs) = Some (r\<lparr>r_status := st\<rparr>)"
  by (induction rs) (auto simp: set_status_def split: if_splits)

lemma set_available_cases:
  assumes "s \<in> set (set_available i b ss)"
  obtains t where "t \<in> set ss" and "s_id t = i" and "s = t\<lparr>s_is_available := b\<rparr>"
  | "s \<in> set ss" and "s_id s \<noteq> i"
proof -
  from assms obtain t where t: "t \<in> set ss"
    and s: "s = (if s_id t = i then t\<lparr>s_is_available := b\<rparr> else t)"
    unfolding set_available_def set_map by (rule imageE)
  show thesis
  proof (cases "s_id t = i")
    case True
    with t s that(1) show thesis by simp
  next
    case False
    with t s that(2) show thesis by simp
  qed
qed

lemma set_available_at:
  "s \<in> set (set_available i b ss) \<Longrightarrow> s_id s = i \<Longrightarrow> s_is_available s = b"
  by (erule set_available_cases) simp_all

lemma set_available_other:
  "s \<in> set (set_available i b ss) \<Longrightarrow> s_id s \<noteq> i \<Longrightarrow> s \<in> set ss"
  by (erule set_available_cases) simp_all

lemma set_available_keeps:
  "s \<in> set ss \<Longrightarrow> s_id s \<noteq> i \<Longrightarrow> s \<in> set (set_available i b ss)"
proof -
  assume a: "s \<in> set ss" "s_id s \<noteq> i"
  have "(\<lambda>s. if s_id s = i then s\<lparr>s_is_available := b\<rparr> else s) s \<in> set (set_available i b ss)"
    unfolding set_available_def set_map using a(1) by (rule imageI)
  with a(2) show ?thesis by simp
qed

lemma set_available_has:
  "s \<in> set ss \<Longrightarrow> s_id s = i \<Longrightarrow> \<exists>s'\<in>set (set_available i b ss). s_id s' = i"
proof -
  assume a: "s \<in> set ss" "s_id s = i"
  have "(\<lambda>s. if s_id s = i then s\<lparr>s_is_available := b\<rparr> else s) s \<in> set (set_available i b ss)"
    unfolding set_available_def set_map using a(1) by (rule imageI)
  with a(2) have "s\<lparr>s_is_available := b\<rparr> \<in> set (set_available i b ss)" by simp
  then show ?thesis by (rule bexI [rotated]) (simp add: a(2))
qed

lemma iso_at_hour:
  "isoformat (at_hour 9) = ''2024-01-01T09:00:00''"
  "isoformat (at_hour 10) = ''2024-01-01T10:00:00''"
  "isoformat (at_hour 11) = ''2024-01-01T11:00:00''"
  "isoformat (at_hour 12) = ''2024-01-01T12:00:00''"
  "isoformat (at_hour 13) = ''2024-01-01T13:00:00''"
  "isoformat (at_hour 14) = ''2024-01-01T14:00:00''"
  by code_simp+

lemma dt_le_at_hour: "dt_le (at_hour a) (at_hour b) = (a \<le> b)"
  by (auto simp: dt_le_def dt_fields_def at_hour_def)

lemma scenario_lot: "createLot empty_db ''Lot'' 0 0 = Inr (db_lot, lot1)"
  by (simp add: createLot_unfold new_lot_def empty_db_def db_lot_def lot1_def)

lemma scenario_spot: "createSpot db_lot 1 ''A1'' None = Inr (db_spot, spot1)"
  by (simp add: createSpot_unfold new_spot_def get_lot_def db_lot_def db_spot_def lot1_def
      spot1_def)

lemma scenario_reserved:
  "createReservation db_spot 1 (at_hour 11) (at_hour 12) ''KA01'' = Inr (db_reserved, res1)"
  by (simp add: createReservation_unfold dt_le_at_hour new_reservation_def get_spot_def
      set_available_def db_spot_def db_reserved_def spot1_def res1_def iso_at_hour)

lemma scenario_reserved_twice:
  "createReservation db_reserved 1 (at_hour 13) (at_hour 14) ''MH02'' =
     Inr (db_reserved_twice, res2)"
  by (simp add: createReservation_unfold dt_le_at_hour new_reservation_def get_spot_def
      set_available_def overlap_query_def db_reserved_def db_reserved_twice_def spot1_def
      res1_def res2_def iso_at_hour)

lemma scenario_released:
  "release_spot db_reserved 1 = Inr (db_released, spot1)"
  by (simp add: release_spot_def get_spot_def set_available_def db_reserved_def db_released_def
      spot1_def)

lemma scenario_ended:
  "end_reservation db_reserved 1 = Inr (db_ended, res1\<lparr>r_status := ''ended''\<rparr>)"
  by (simp add: end_reservation_def get_reservation_def set_available_def set_status_def
      db_reserved_def db_ended_def spot1_def res1_def)

lemma reachable_db_reserved: "reachable db_reserved"
  by (rule reach_reserve [OF reach_spot [OF reach_lot [OF reach_empty scenario_lot]
        scenario_spot] scenario_reserved])


section \<open>Lots: no validation of the coordinates or the name\<close>

text \<open>
  C8 (as stated, refuted): "createLot with a latitude outside [-90,90], a longitude outside
  [-180,180] or an empty name fails with ValidationError and creates no lot". Here the
  name is empty, the latitude 91 and the longitude 181, and the lot is created.
\<close>

theorem createLot_out_of_range_counterexample:
  "\<not> lot_in_range [] 91 181 \<and>
   createLot empty_db [] 91 181 =
     Inr (\<lparr>lots = [\<lparr>l_id = 1, l_name = [], l_latitude = 91, l_longitude = 181\<rparr>],
           spots = [], reservations = [], lot_seq = 2, spot_seq = 1, reservation_seq = 1\<rparr>,
          \<lparr>l_id = 1, l_name = [], l_latitude = 91, l_longitude = 181\<rparr>)"
  by (simp add: lot_in_range_def createLot_unfold new_lot_def empty_db_def)

text \<open>
  C8 (amended): createLot checks neither the range of the coordinates nor the name: for
  every name, latitude and longitude it appends the lot, under the next key of the
  sequence, to the lots of the database, changes nothing else, and returns the lot; it
  never fails.
\<close>

theorem createLot_always_creates:
  "createLot db name latitude longitude =
     Inr (db\<lparr>lots := lots db @ [\<lparr>l_id = lot_seq db, l_name = name, l_latitude = latitude,
                                   l_longitude = longitude\<rparr>],
             lot_seq := lot_seq db + 1\<rparr>,
          \<lparr>l_id = lot_seq db, l_name = name, l_latitude = latitude, l_longitude = longitude\<rparr>)"
  by (simp add: createLot_unfold new_lot_def)


section \<open>Creating a reservation\<close>

text \<open>
  C2: createReservation fails with ValidationError when the end is not after the start,
  and (the schema being checked before the handler runs) with NotFound when the window is
  in order and the spot is absent. When the window is in order, the spot exists and the
  overlap query finds nothing, the call succeeds. Every success appends exactly one
  reservation, active, for the given spot, window and plate, sets the availability of the
  spot of that key to false, leaves the lots and the other spots as they are, and
  returns the appended reservation. After a failure the database is the one before.
\<close>

theorem createReservation_contract:
  "(dt_le et st \<longrightarrow> createReservation db sid st et plate = Inl ValidationError) \<and>
   (\<not> dt_le et st \<and> get_spot db sid = None \<longrightarrow>
      createReservation db sid st et plate = Inl (HTTPException 404 ''Spot not found'')) \<and>
   (\<not> dt_le et st \<and> get_spot db sid \<noteq> None \<and>
    find (overlap_query sid (isoformat st) (isoformat et)) (reservations db) = None \<longrightarrow>
      (\<exists>db' r. createReservation db sid st et plate = Inr (db', r))) \<and>
   (\<forall>db' r. createReservation db sid st et plate = Inr (db', r) \<longrightarrow>
      r = \<lparr>r_id = reservation_seq db, r_spot_id = sid, r_start_time = isoformat st,
           r_end_time = isoformat et, r_vehicle_plate = plate, r_status = ''active''\<rparr> \<and>
      reservations db' = reservations db @ [r] \<and>
      spots db' = map (\<lambda>s. if s_id s = sid then s\<lparr>s_is_available := False\<rparr> else s) (spots db) \<and>
      (\<exists>s\<in>set (spots db'). s_id s = sid) \<and>
      (\<forall>s\<in>set (spots db'). s_id s = sid \<longrightarrow> \<not> s_is_available s) \<and>
      lots db' = lots db) \<and>
   (\<forall>e. createReservation db sid st et plate = Inl e \<longrightarrow>
      after db (createReservation db sid st et plate) = db)"
proof (intro conjI allI impI)
  assume "dt_le et st"
  then show "createReservation db sid st et plate = Inl ValidationError"
    by (simp add: createReservation_unfold)
next
  assume "\<not> dt_le et st \<and> get_spot db sid = None"
  then show "createReservation db sid st et plate = Inl (HTTPException 404 ''Spot not found'')"
    by (simp add: createReservation_unfold)
next
  assume a: "\<not> dt_le et st \<and> get_spot db sid \<noteq> None \<and>
        find (overlap_query sid (isoformat st) (isoformat et)) (reservations db) = None"
  then obtain spot where "get_spot db sid = Some spot" by blast
  with a show "\<exists>db' r. createReservation db sid st et plate = Inr (db', r)"
    by (simp add: createReservation_unfold)
next
  fix db' r
  assume ok: "createReservation db sid st et plate = Inr (db', r)"
  note d = createReservation_InrD [OF ok]
  from d(2) obtain spot where sp: "get_spot db sid = Some spot" by blast
  from d(4) show "r = \<lparr>r_id = reservation_seq db, r_spot_id = sid, r_start_time = isoformat st,
           r_end_time = isoformat et, r_vehicle_plate = plate, r_status = ''active''\<rparr>"
    by (simp add: new_reservation_def)
  from d(5) show "reservations db' = reservations db @ [r]" by simp
  from d(5) show "lots db' = lots db" by simp
  from d(5) have sps: "spots db' = set_available sid False (spots db)" by simp
  then show "spots db' =
      map (\<lambda>s. if s_id s = sid then s\<lparr>s_is_available := False\<rparr> else s) (spots db)"
    by (simp add: set_available_def)
  from sp have "spot \<in> set (spots db) \<and> s_id spot = sid"
    unfolding get_spot_def by (rule find_SomeD)
  then show "\<exists>s\<in>set (spots db'). s_id s = sid"
    unfolding sps by (blast intro: set_available_has)
  show "\<forall>s\<in>set (spots db'). s_id s = sid \<longrightarrow> \<not> s_is_available s"
    unfolding sps using set_available_at [of _ sid False "spots db"] by blast
next
  fix e assume "createReservation db sid st et plate = Inl e"
  then show "after db (createReservation db sid st et plate) = db"
    by (simp add: after_def)
qed

text \<open>
  The scenario: an inverted window is refused, an unknown spot is not found, and the
  reservation from 11:00 to 12:00 of the free spot 1 is created and marks it unavailable.
\<close>

theorem createReservation_contract_witness:
  "dt_le (at_hour 11) (at_hour 12) \<and>
   createReservation db_spot 1 (at_hour 12) (at_hour 11) ''KA01'' = Inl ValidationError \<and>
   \<not> dt_le (at_hour 12) (at_hour 11) \<and> get_spot db_spot 7 = None \<and>
   createReservation db_spot 7 (at_hour 11) (at_hour 12) ''KA01'' =
     Inl (HTTPException 404 ''Spot not found'') \<and>
   createReservation db_spot 1 (at_hour 11) (at_hour 12) ''KA01'' = Inr (db_reserved, res1) \<and>
   reservations db_reserved = reservations db_spot @ [res1] \<and>
   r_status res1 = ''active'' \<and>
   spots db_reserved = [spot1\<lparr>s_is_available := False\<rparr>] \<and>
   after db_spot (createReservation db_spot 7 (at_hour 11) (at_hour 12) ''KA01'') = db_spot"
proof -
  have le: "dt_le (at_hour 11) (at_hour 12)" and nle: "\<not> dt_le (at_hour 12) (at_hour 11)"
    by (simp_all add: dt_le_at_hour)
  have none: "get_spot db_spot 7 = None"
    by (simp add: get_spot_def db_spot_def spot1_def)
  note c1 = createReservation_contract [of "at_hour 11" "at_hour 12" db_spot 1 "''KA01''"]
  note c2 = createReservation_contract [of "at_hour 12" "at_hour 11" db_spot 7 "''KA01''"]
  note c3 = createReservation_contract [of "at_hour 12" "at_hour 11" db_spot 1 "''KA01''"]
  from c1 le have v: "createReservation db_spot 1 (at_hour 12) (at_hour 11) ''KA01'' =
      Inl ValidationError" by blast
  from c2 nle none have nf: "createReservation db_spot 7 (at_hour 11) (at_hour 12) ''KA01'' =
      Inl (HTTPException 404 ''Spot not found'')" by blast
  from c2 nf have unchanged:
    "after db_spot (createReservation db_spot 7 (at_hour 11) (at_hour 12) ''KA01'') = db_spot"
    by blast
  from c3 scenario_reserved have app: "reservations db_reserved = reservations db_spot @ [res1]"
    by blast
  have act: "r_status res1 = ''active''" by (simp add: res1_def)
  have sp: "spots db_reserved = [spot1\<lparr>s_is_available := False\<rparr>]"
    by (simp add: db_reserved_def)
  from le v nle none nf scenario_reserved app act sp unchanged show ?thesis by blast
qed


section \<open>Ending a reservation\<close>

text \<open>
  C5: endReservation fails with NotFound when there is no reservation of that key, and
  with InvalidState (400) when its status is not active. Otherwise it succeeds: the
  reservation of that key has status ended afterwards, every spot with the key the
  reservation refers to is available, and the ended reservation is returned. A second
  call on the same key fails with InvalidState and leaves the database as the first call
  left it, the availability of the spot included.
\<close>

theorem end_reservation_contract:
  "(get_reservation db rid = None \<longrightarrow>
      end_reservation db rid = Inl (HTTPException 404 ''Reservation not found'')) \<and>
   (\<forall>r. get_reservation db rid = Some r \<and> r_status r \<noteq> ''active'' \<longrightarrow>
      end_reservation db rid =
        Inl (HTTPException 400 ''Reservation already ended or cancelled'')) \<and>
   (\<forall>r. get_reservation db rid = Some r \<and> r_status r = ''active'' \<longrightarrow>
      (\<exists>db'. end_reservation db rid = Inr (db', r\<lparr>r_status := ''ended''\<rparr>) \<and>
         get_reservation db' rid = Some (r\<lparr>r_status := ''ended''\<rparr>) \<and>
         spots db' =
           map (\<lambda>s. if s_id s = r_spot_id r then s\<lparr>s_is_available := True\<rparr> else s) (spots db) \<and>
         (\<forall>s\<in>set (spots db'). s_id s = r_spot_id r \<longrightarrow> s_is_available s) \<and>
         lots db' = lots db \<and>
         end_reservation db' rid =
           Inl (HTTPException 400 ''Reservation already ended or cancelled'') \<and>
         after db' (end_reservation db' rid) = db'))"
proof (intro conjI allI impI)
  assume "get_reservation db rid = None"
  then show "end_reservation db rid = Inl (HTTPException 404 ''Reservation not found'')"
    by (simp add: end_reservation_def)
next
  fix r assume "get_reservation db rid = Some r \<and> r_status r \<noteq> ''active''"
  then show "end_reservation db rid =
      Inl (HTTPException 400 ''Reservation already ended or cancelled'')"
    by (simp add: end_reservation_def)
next
  fix r assume a: "get_reservation db rid = Some r \<and> r_status r = ''active''"
  define db' where "db' = db\<lparr>spots := set_available (r_spot_id r) True (spots db),
                       reservations := set_status rid ''ended'' (reservations db)\<rparr>"
  from a have ok: "end_reservation db rid = Inr (db', r\<lparr>r_status := ''ended''\<rparr>)"
    by (simp add: end_reservation_def db'_def)
  from a have "find (\<lambda>r. r_id r = rid) (reservations db) = Some r"
    by (simp add: get_reservation_def)
  then have got: "get_reservation db' rid = Some (r\<lparr>r_status := ''ended''\<rparr>)"
    by (simp add: get_reservation_def db'_def find_set_status)
  have sps: "spots db' = set_available (r_spot_id r) True (spots db)"
    by (simp add: db'_def)
  then have sps': "spots db' =
      map (\<lambda>s. if s_id s = r_spot_id r then s\<lparr>s_is_available := True\<rparr> else s) (spots db)"
    by (simp add: set_available_def)
  have free: "\<forall>s\<in>set (spots db'). s_id s = r_spot_id r \<longrightarrow> s_is_available s"
    unfolding sps using set_available_at [of _ "r_spot_id r" True "spots db"] by blast
  have ls: "lots db' = lots db" by (simp add: db'_def)
  from got have again: "end_reservation db' rid =
      Inl (HTTPException 400 ''Reservation already ended or cancelled'')"
    by (simp add: end_reservation_def)
  then have same: "after db' (end_reservation db' rid) = db'"
    by (simp add: after_def)
  from ok got sps' free ls again same
  show "\<exists>db'. end_reservation db rid = Inr (db', r\<lparr>r_status := ''ended''\<rparr>) \<and>
         get_reservation db' rid = Some (r\<lparr>r_status := ''ended''\<rparr>) \<and>
         spots db' =
           map (\<lambda>s. if s_id s = r_spot_id r then s\<lparr>s_is_available := True\<rparr> else s) (spots db) \<and>
         (\<forall>s\<in>set (spots db'). s_id s = r_spot_id r \<longrightarrow> s_is_available s) \<and>
         lots db' = lots db \<and>
         end_reservation db' rid =
           Inl (HTTPException 400 ''Reservation already ended or cancelled'') \<and>
         after db' (end_reservation db' rid) = db'"
    by blast
qed

text \<open>
  The scenario: reservation 9 does not exist; reservation 1 is active and is ended, which
  frees spot 1; ending it again is refused and changes nothing.
\<close>

theorem end_reservation_contract_witness:
  "get_reservation db_reserved 9 = None \<and>
   end_reservation db_reserved 9 = Inl (HTTPException 404 ''Reservation not found'') \<and>
   get_reservation db_reserved 1 = Some res1 \<and> r_status res1 = ''active'' \<and>
   end_reservation db_reserved 1 = Inr (db_ended, res1\<lparr>r_status := ''ended''\<rparr>) \<and>
   spots db_ended = [spot1] \<and> s_is_available spot1 \<and>
   get_reservation db_ended 1 = Some (res1\<lparr>r_status := ''ended''\<rparr>) \<and>
   r_status (res1\<lparr>r_status := ''ended''\<rparr>) \<noteq> ''active'' \<and>
   end_reservation db_ended 1 =
     Inl (HTTPException 400 ''Reservation already ended or cancelled'') \<and>
   after db_ended (end_reservation db_ended 1) = db_ended"
proof -
  have none: "get_reservation db_reserved 9 = None"
    by (simp add: get_reservation_def db_reserved_def res1_def)
  have some: "get_reservation db_reserved 1 = Some res1"
    by (simp add: get_reservation_def db_reserved_def res1_def)
  have act: "r_status res1 = ''active''" by (simp add: res1_def)
  have some': "get_reservation db_ended 1 = Some (res1\<lparr>r_status := ''ended''\<rparr>)"
    by (simp add: get_reservation_def db_ended_def res1_def)
  have nact: "r_status (res1\<lparr>r_status := ''ended''\<rparr>) \<noteq> ''active''" by simp
  have sp: "spots db_ended = [spot1]" "s_is_available spot1"
    by (simp_all add: db_ended_def spot1_def)
  from end_reservation_contract [of db_reserved 9] none
  have nf: "end_reservation db_reserved 9 = Inl (HTTPException 404 ''Reservation not found'')"
    by blast
  from end_reservation_contract [of db_ended 1] some' nact
  have again: "end_reservation db_ended 1 =
      Inl (HTTPException 400 ''Reservation already ended or cancelled'')"
    by blast
  then have same: "after db_ended (end_reservation db_ended 1) = db_ended"
    by (simp add: after_def)
  from none nf some act scenario_ended sp some' nact again same show ?thesis by blast
qed


section \<open>Creating a spot\<close>

text \<open>
  C9: createSpot fails with ValidationError when a category is given that is not one of
  car, bike, ev. With an accepted category (or none, which stands for car) it fails with
  NotFound when the lot is absent and with Conflict when a spot of that same lot already
  has the label. Otherwise it succeeds, whatever labels the spots of other lots have, and
  the spot it creates and returns is available and has the category asked for, car when
  none was given.
\<close>

theorem createSpot_contract:
  "(ty \<noteq> None \<and> ty \<noteq> Some ''car'' \<and> ty \<noteq> Some ''bike'' \<and> ty \<noteq> Some ''ev'' \<longrightarrow>
      createSpot db lot_id number ty = Inl ValidationError) \<and>
   ((ty = None \<or> ty = Some ''car'' \<or> ty = Some ''bike'' \<or> ty = Some ''ev'') \<and>
    get_lot db lot_id = None \<longrightarrow>
      createSpot db lot_id number ty = Inl (HTTPException 404 ''Lot not found'')) \<and>
   ((ty = None \<or> ty = Some ''car'' \<or> ty = Some ''bike'' \<or> ty = Some ''ev'') \<and>
    get_lot db lot_id \<noteq> None \<and>
    (\<exists>s\<in>set (spots db). s_lot_id s = lot_id \<and> s_number s = number) \<longrightarrow>
      createSpot db lot_id number ty =
        Inl (HTTPException 409 ''Spot number already exists in this lot'')) \<and>
   ((ty = None \<or> ty = Some ''car'' \<or> ty = Some ''bike'' \<or> ty = Some ''ev'') \<and>
    get_lot db lot_id \<noteq> None \<and>
    (\<forall>s\<in>set (spots db). s_lot_id s = lot_id \<longrightarrow> s_number s \<noteq> number) \<longrightarrow>
      createSpot db lot_id number ty =
        Inr (db\<lparr>spots := spots db @ [new_spot db lot_id number ty],
                spot_seq := spot_seq db + 1\<rparr>,
             new_spot db lot_id number ty)) \<and>
   (\<forall>db' spot. createSpot db lot_id number ty = Inr (db', spot) \<longrightarrow>
      s_is_available spot \<and> s_lot_id spot = lot_id \<and> s_number spot = number \<and>
      s_type spot = (case ty of None \<Rightarrow> ''car'' | Some t \<Rightarrow> t) \<and>
      spots db' = spots db @ [spot])"
proof (intro conjI allI impI)
  assume "ty \<noteq> None \<and> ty \<noteq> Some ''car'' \<and> ty \<noteq> Some ''bike'' \<and> ty \<noteq> Some ''ev''"
  then show "createSpot db lot_id number ty = Inl ValidationError"
    unfolding createSpot_unfold by auto
next
  assume "(ty = None \<or> ty = Some ''car'' \<or> ty = Some ''bike'' \<or> ty = Some ''ev'') \<and>
    get_lot db lot_id = None"
  then show "createSpot db lot_id number ty = Inl (HTTPException 404 ''Lot not found'')"
    by (simp add: createSpot_unfold)
next
  assume a: "(ty = None \<or> ty = Some ''car'' \<or> ty = Some ''bike'' \<or> ty = Some ''ev'') \<and>
    get_lot db lot_id \<noteq> None \<and>
    (\<exists>s\<in>set (spots db). s_lot_id s = lot_id \<and> s_number s = number)"
  then obtain lot where l: "get_lot db lot_id = Some lot" by blast
  from a have "find (\<lambda>s. s_lot_id s = lot_id \<and> s_number s = number) (spots db) \<noteq> None"
    by (simp add: find_None_set)
  then obtain e where "find (\<lambda>s. s_lot_id s = lot_id \<and> s_number s = number) (spots db) = Some e"
    by blast
  with a l show "createSpot db lot_id number ty =
        Inl (HTTPException 409 ''Spot number already exists in this lot'')"
    by (simp add: createSpot_unfold)
next
  assume a: "(ty = None \<or> ty = Some ''car'' \<or> ty = Some ''bike'' \<or> ty = Some ''ev'') \<and>
    get_lot db lot_id \<noteq> None \<and>
    (\<forall>s\<in>set (spots db). s_lot_id s = lot_id \<longrightarrow> s_number s \<noteq> number)"
  then obtain lot where l: "get_lot db lot_id = Some lot" by blast
  from a have "find (\<lambda>s. s_lot_id s = lot_id \<and> s_number s = number) (spots db) = None"
    by (simp add: find_None_set)
  with a l show "createSpot db lot_id number ty =
        Inr (db\<lparr>spots := spots db @ [new_spot db lot_id number ty],
                spot_seq := spot_seq db + 1\<rparr>,
             new_spot db lot_id number ty)"
    by (simp add: createSpot_unfold)
next
  fix db' spot
  assume ok: "createSpot db lot_id number ty = Inr (db', spot)"
  note d = createSpot_InrD [OF ok]
  from d(1) show "s_is_available spot" "s_lot_id spot = lot_id" "s_number spot = number"
    "s_type spot = (case ty of None \<Rightarrow> ''car'' | Some t \<Rightarrow> t)"
    by (simp_all add: new_spot_def)
  from d(2) show "spots db' = spots db @ [spot]" by simp
qed

text \<open>
  The scenario, with two lots and the label A1 used in lot 1: a truck is refused; lot 9
  is not found; A1 again in lot 1 is a conflict; A1 in lot 2 is created, available, with
  the default category.
\<close>

theorem createSpot_contract_witness:
  "createSpot db_two_lots 1 ''B7'' (Some ''truck'') = Inl ValidationError \<and>
   get_lot db_two_lots 9 = None \<and>
   createSpot db_two_lots 9 ''A1'' None = Inl (HTTPException 404 ''Lot not found'') \<and>
   get_lot db_two_lots 1 \<noteq> None \<and>
   (\<exists>s\<in>set (spots db_two_lots). s_lot_id s = 1 \<and> s_number s = ''A1'') \<and>
   createSpot db_two_lots 1 ''A1'' (Some ''ev'') =
     Inl (HTTPException 409 ''Spot number already exists in this lot'') \<and>
   get_lot db_two_lots 2 \<noteq> None \<and>
   createSpot db_two_lots 2 ''A1'' None =
     Inr (db_two_lots\<lparr>spots := [spot1, new_spot db_two_lots 2 ''A1'' None], spot_seq := 3\<rparr>,
          new_spot db_two_lots 2 ''A1'' None) \<and>
   s_is_available (new_spot db_two_lots 2 ''A1'' None) \<and>
   s_type (new_spot db_two_lots 2 ''A1'' None) = ''car''"
proof -
  have g9: "get_lot db_two_lots 9 = None"
    and g1: "get_lot db_two_lots 1 \<noteq> None" and g2: "get_lot db_two_lots 2 \<noteq> None"
    by (simp_all add: get_lot_def db_two_lots_def lot1_def lot2_def)
  have used: "\<exists>s\<in>set (spots db_two_lots). s_lot_id s = 1 \<and> s_number s = ''A1''"
    by (simp add: db_two_lots_def spot1_def)
  have free: "\<forall>s\<in>set (spots db_two_lots). s_lot_id s = 2 \<longrightarrow> s_number s \<noteq> ''A1''"
    by (simp add: db_two_lots_def spot1_def)
  have truck: "Some ''truck'' \<noteq> None \<and> Some ''truck'' \<noteq> Some ''car'' \<and>
      Some ''truck'' \<noteq> Some ''bike'' \<and> Some ''truck'' \<noteq> Some ''ev''" by simp
  from createSpot_contract [of "Some ''truck''" db_two_lots 1 "''B7''"] truck
  have v: "createSpot db_two_lots 1 ''B7'' (Some ''truck'') = Inl ValidationError" by blast
  from createSpot_contract [of None db_two_lots 9 "''A1''"] g9
  have nf: "createSpot db_two_lots 9 ''A1'' None = Inl (HTTPException 404 ''Lot not found'')"
    by blast
  from createSpot_contract [of "Some ''ev''" db_two_lots 1 "''A1''"] g1 used
  have cf: "createSpot db_two_lots 1 ''A1'' (Some ''ev'') =
     Inl (HTTPException 409 ''Spot number already exists in this lot'')" by blast
  from createSpot_contract [of None db_two_lots 2 "''A1''"] g2 free
  have "createSpot db_two_lots 2 ''A1'' None =
     Inr (db_two_lots\<lparr>spots := spots db_two_lots @ [new_spot db_two_lots 2 ''A1'' None],
                      spot_seq := spot_seq db_two_lots + 1\<rparr>,
          new_spot db_two_lots 2 ''A1'' None)" by blast
  then have ok: "createSpot db_two_lots 2 ''A1'' None =
     Inr (db_two_lots\<lparr>spots := [spot1, new_spot db_two_lots 2 ''A1'' None], spot_seq := 3\<rparr>,
          new_spot db_two_lots 2 ''A1'' None)"
    by (simp add: db_two_lots_def)
  have av: "s_is_available (new_spot db_two_lots 2 ''A1'' None)"
    "s_type (new_spot db_two_lots 2 ''A1'' None) = ''car''"
    by (simp_all add: new_spot_def)
  from v g9 nf g1 used cf g2 ok av show ?thesis by blast
qed


section \<open>Invariants of the reachable states\<close>

lemma end_reservation_InrE:
  assumes "end_reservation db rid = Inr (db', r')"
  obtains r where "get_reservation db rid = Some r" and "r_status r = ''active''"
    and "db' = db\<lparr>spots := set_available (r_spot_id r) True (spots db),
                    reservations := set_status rid ''ended'' (reservations db)\<rparr>"
  using assms by (auto simp: end_reservation_def split: option.splits if_splits)

lemma active_on_nonempty:
  "(active_on db sid \<noteq> []) =
     (\<exists>r\<in>set (reservations db). r_spot_id r = sid \<and> r_status r = ''active'')"
  by (simp add: active_on_def filter_empty_conv)

lemma set_active_on:
  "(r \<in> set (active_on db sid)) =
     (r \<in> set (reservations db) \<and> r_spot_id r = sid \<and> r_status r = ''active'')"
  by (simp add: active_on_def)

lemma map_r_id_set_status: "map r_id (set_status i st rs) = map r_id rs"
  by (induction rs) (simp_all add: set_status_def)

lemma length_set_status: "length (set_status i st rs) = length rs"
  by (simp add: set_status_def)

lemma nth_set_status:
  "n < length rs \<Longrightarrow>
   set_status i st rs ! n = (if r_id (rs ! n) = i then (rs ! n)\<lparr>r_status := st\<rparr> else rs ! n)"
  by (simp add: set_status_def)

lemma set_status_keeps:
  "r \<in> set rs \<Longrightarrow> r_id r \<noteq> i \<Longrightarrow> r \<in> set (set_status i st rs)"
proof -
  assume a: "r \<in> set rs" "r_id r \<noteq> i"
  have "(\<lambda>r. if r_id r = i then r\<lparr>r_status := st\<rparr> else r) r \<in> set (set_status i st rs)"
    unfolding set_status_def set_map using a(1) by (rule imageI)
  with a(2) show ?thesis by simp
qed

lemma distinct_key_eq:
  "distinct (map f xs) \<Longrightarrow> x \<in> set xs \<Longrightarrow> y \<in> set xs \<Longrightarrow> f x = f y \<Longrightarrow> x = y"
  by (simp add: distinct_map inj_on_def)

text \<open>The keys of the reservations are distinct and below the sequence.\<close>

lemma keys_ok_empty: "keys_ok empty_db"
  by (simp add: keys_ok_def empty_db_def)

lemma keys_ok_same:
  "reservations db' = reservations db \<Longrightarrow> reservation_seq db' = reservation_seq db \<Longrightarrow>
   keys_ok db \<Longrightarrow> keys_ok db'"
  by (simp add: keys_ok_def)

lemma keys_ok_reserve:
  assumes "keys_ok db" and "createReservation db sid st et plate = Inr (db', r)"
  shows "keys_ok db'"
proof -
  note d = createReservation_InrD [OF assms(2)]
  from d(4) have id: "r_id r = reservation_seq db" by (simp add: new_reservation_def)
  from d(5) have rs: "reservations db' = reservations db @ [r]"
    and sq: "reservation_seq db' = reservation_seq db + 1" by simp_all
  from assms(1) have old: "\<forall>x\<in>set (reservations db). r_id x < reservation_seq db"
    and dist: "distinct (map r_id (reservations db))" by (simp_all add: keys_ok_def)
  from old id have "r_id r \<notin> r_id ` set (reservations db)" by auto
  with dist have "distinct (map r_id (reservations db'))" by (simp add: rs)
  moreover from old id have "\<forall>x\<in>set (reservations db'). r_id x < reservation_seq db'"
    by (auto simp: rs sq)
  ultimately show ?thesis by (simp add: keys_ok_def)
qed

lemma keys_ok_end:
  assumes "keys_ok db" and "end_reservation db rid = Inr (db', r')"
  shows "keys_ok db'"
proof -
  from assms(2) obtain r where
    "get_reservation db rid = Some r" and "r_status r = ''active''" and
    db': "db' = db\<lparr>spots := set_available (r_spot_id r) True (spots db),
                  reservations := set_status rid ''ended'' (reservations db)\<rparr>"
    by (rule end_reservation_InrE)
  have m: "map r_id (reservations db') = map r_id (reservations db)"
    by (simp add: db' map_r_id_set_status)
  have sq: "reservation_seq db' = reservation_seq db" by (simp add: db')
  from assms(1) have "distinct (map r_id (reservations db))"
    and "\<forall>k\<in>set (map r_id (reservations db)). k < reservation_seq db"
    by (simp_all add: keys_ok_def)
  then have "distinct (map r_id (reservations db'))"
    and "\<forall>k\<in>set (map r_id (reservations db')). k < reservation_seq db'"
    by (simp_all only: m sq)
  then show ?thesis by (simp add: keys_ok_def)
qed

lemma reachable_keys_ok: "reachable db \<Longrightarrow> keys_ok db"
proof (induction rule: reachable.induct)
  case reach_empty
  show ?case by (rule keys_ok_empty)
next
  case (reach_lot db name latitude longitude db' lot)
  from reach_lot.hyps(2) have "reservations db' = reservations db"
    "reservation_seq db' = reservation_seq db"
    by (auto simp: createLot_unfold)
  with reach_lot.IH show ?case by (rule keys_ok_same [rotated 2])
next
  case (reach_spot db lot_id number ty db' spot)
  from createSpot_InrD(2) [OF reach_spot.hyps(2)] have "reservations db' = reservations db"
    "reservation_seq db' = reservation_seq db" by simp_all
  with reach_spot.IH show ?case by (rule keys_ok_same [rotated 2])
next
  case (reach_release db spot_id db' spot)
  from release_spot_InrD [OF reach_release.hyps(2)] have "reservations db' = reservations db"
    "reservation_seq db' = reservation_seq db" by simp_all
  with reach_release.IH show ?case by (rule keys_ok_same [rotated 2])
next
  case (reach_reserve db spot_id st et plate db' r)
  then show ?case by (blast intro: keys_ok_reserve)
next
  case (reach_end db reservation_id db' r)
  then show ?case by (blast intro: keys_ok_end)
qed

text \<open>A spot that is not available has an active reservation.\<close>

lemma unavailable_has_active_new_spots:
  assumes "unavailable_has_active db" and "reservations db' = reservations db"
    and "\<forall>s\<in>set (spots db'). s \<in> set (spots db) \<or> s_is_available s"
  shows "unavailable_has_active db'"
  unfolding unavailable_has_active_def
proof (intro ballI impI)
  fix s assume s: "s \<in> set (spots db')" "\<not> s_is_available s"
  with assms(3) have "s \<in> set (spots db)" by blast
  with assms(1) s(2) have "active_on db (s_id s) \<noteq> []"
    by (simp add: unavailable_has_active_def)
  with assms(2) show "active_on db' (s_id s) \<noteq> []" by (simp add: active_on_def)
qed

lemma unavailable_has_active_reserve:
  assumes "unavailable_has_active db" and "createReservation db sid st et plate = Inr (db', r)"
  shows "unavailable_has_active db'"
  unfolding unavailable_has_active_def
proof (intro ballI impI)
  note d = createReservation_InrD [OF assms(2)]
  from d(4) have r: "r_spot_id r = sid" "r_status r = ''active''"
    by (simp_all add: new_reservation_def)
  from d(5) have rs: "reservations db' = reservations db @ [r]"
    and sps: "spots db' = set_available sid False (spots db)" by simp_all
  fix s assume s: "s \<in> set (spots db')" "\<not> s_is_available s"
  show "active_on db' (s_id s) \<noteq> []"
  proof (cases "s_id s = sid")
    case True
    with r show ?thesis by (simp add: active_on_nonempty rs)
  next
    case False
    with s(1) have "s \<in> set (spots db)" unfolding sps by (rule set_available_other)
    with assms(1) s(2) have "active_on db (s_id s) \<noteq> []"
      by (simp add: unavailable_has_active_def)
    then show ?thesis by (auto simp: active_on_nonempty rs)
  qed
qed

lemma unavailable_has_active_end:
  assumes "unavailable_has_active db" and "keys_ok db"
    and "end_reservation db rid = Inr (db', r')"
  shows "unavailable_has_active db'"
  unfolding unavailable_has_active_def
proof (intro ballI impI)
  from assms(3) obtain r where
    g: "get_reservation db rid = Some r" and "r_status r = ''active''" and
    db': "db' = db\<lparr>spots := set_available (r_spot_id r) True (spots db),
                  reservations := set_status rid ''ended'' (reservations db)\<rparr>"
    by (rule end_reservation_InrE)
  from g have rin: "r \<in> set (reservations db) \<and> r_id r = rid"
    unfolding get_reservation_def by (rule find_SomeD)
  have rs: "reservations db' = set_status rid ''ended'' (reservations db)"
    and sps: "spots db' = set_available (r_spot_id r) True (spots db)" by (simp_all add: db')
  from assms(2) have dist: "distinct (map r_id (reservations db))" by (simp add: keys_ok_def)
  fix s assume s: "s \<in> set (spots db')" "\<not> s_is_available s"
  have ne: "s_id s \<noteq> r_spot_id r"
  proof
    assume "s_id s = r_spot_id r"
    with s(1) have "s_is_available s = True" unfolding sps by (rule set_available_at)
    with s(2) show False by simp
  qed
  with s(1) have "s \<in> set (spots db)" unfolding sps by (rule set_available_other)
  with assms(1) s(2) obtain w where w: "w \<in> set (reservations db)" "r_spot_id w = s_id s"
    "r_status w = ''active''"
    by (auto simp: unavailable_has_active_def active_on_nonempty)
  have "r_id w \<noteq> rid"
  proof
    assume "r_id w = rid"
    with rin have "r_id w = r_id r" by simp
    with dist w(1) rin have "w = r" by (blast intro: distinct_key_eq)
    with w(2) ne show False by simp
  qed
  with w(1) have "w \<in> set (reservations db')" unfolding rs by (rule set_status_keeps)
  with w(2,3) show "active_on db' (s_id s) \<noteq> []" by (auto simp: active_on_nonempty)
qed

lemma reachable_unavailable_has_active: "reachable db \<Longrightarrow> unavailable_has_active db"
proof (induction rule: reachable.induct)
  case reach_empty
  show ?case by (simp add: unavailable_has_active_def empty_db_def)
next
  case (reach_lot db name latitude longitude db' lot)
  from reach_lot.hyps(2) have "reservations db' = reservations db" "spots db' = spots db"
    by (auto simp: createLot_unfold)
  with reach_lot.IH show ?case by (simp add: unavailable_has_active_new_spots)
next
  case (reach_spot db lot_id number ty db' spot)
  note d = createSpot_InrD [OF reach_spot.hyps(2)]
  from d(1) have "s_is_available spot" by (simp add: new_spot_def)
  with d(2) have "reservations db' = reservations db"
    "\<forall>s\<in>set (spots db'). s \<in> set (spots db) \<or> s_is_available s" by auto
  with reach_spot.IH show ?case by (rule unavailable_has_active_new_spots)
next
  case (reach_release db spot_id db' spot)
  from release_spot_InrD [OF reach_release.hyps(2)]
  have rs: "reservations db' = reservations db"
    and sps: "spots db' = set_available spot_id True (spots db)" by simp_all
  have "\<forall>s\<in>set (spots db'). s \<in> set (spots db) \<or> s_is_available s"
    unfolding sps using set_available_at [of _ spot_id True "spots db"]
      set_available_other [of _ spot_id True "spots db"] by blast
  with reach_release.IH rs show ?case by (rule unavailable_has_active_new_spots)
next
  case (reach_reserve db spot_id st et plate db' r)
  then show ?case by (blast intro: unavailable_has_active_reserve)
next
  case (reach_end db reservation_id db' r)
  then show ?case by (blast intro: unavailable_has_active_end reachable_keys_ok)
qed

text \<open>Two active reservations of one spot never overlap.\<close>

lemma no_query_no_overlap:
  assumes "\<not> overlap_query sid st et a" and "r_spot_id a = sid" and "r_status a = ''active''"
    and "r_start_time b = st" and "r_end_time b = et"
  shows "\<not> windows_overlap a b"
proof -
  from assms(1-3) have "\<not> (r_start_time a \<le> et \<and> st < r_end_time a)"
    by (simp add: overlap_query_def)
  then have "\<not> (r_start_time a < et \<and> st < r_end_time a)" by auto
  with assms(4,5) show ?thesis by (simp add: windows_overlap_def)
qed

lemma no_active_overlap_reserve:
  assumes "no_active_overlap db" and "createReservation db sid st et plate = Inr (db', r)"
  shows "no_active_overlap db'"
  unfolding no_active_overlap_def
proof (intro allI impI)
  note d = createReservation_InrD [OF assms(2)]
  from d(4) have r: "r_spot_id r = sid" "r_start_time r = isoformat st"
    "r_end_time r = isoformat et" by (simp_all add: new_reservation_def)
  from d(5) have rs: "reservations db' = reservations db @ [r]" by simp
  from d(3) have nq: "\<forall>a\<in>set (reservations db).
      \<not> overlap_query sid (isoformat st) (isoformat et) a" by (simp add: find_None_set)
  fix i j
  assume a: "i < j \<and> j < length (reservations db') \<and>
      r_status (reservations db' ! i) = ''active'' \<and>
      r_status (reservations db' ! j) = ''active'' \<and>
      r_spot_id (reservations db' ! i) = r_spot_id (reservations db' ! j)"
  show "\<not> windows_overlap (reservations db' ! i) (reservations db' ! j)"
  proof (cases "j < length (reservations db)")
    case True
    with a have "reservations db' ! i = reservations db ! i"
      "reservations db' ! j = reservations db ! j" by (simp_all add: rs nth_append)
    with a True assms(1) show ?thesis by (simp add: no_active_overlap_def)
  next
    case False
    with a have j: "j = length (reservations db)" by (simp add: rs)
    with a have i: "i < length (reservations db)" by simp
    from j have rj: "reservations db' ! j = r" by (simp add: rs)
    from i have ri: "reservations db' ! i = reservations db ! i" by (simp add: rs nth_append)
    from i have "reservations db ! i \<in> set (reservations db)" by simp
    with nq have "\<not> overlap_query sid (isoformat st) (isoformat et) (reservations db ! i)"
      by blast
    moreover from a have "r_spot_id (reservations db ! i) = sid"
      "r_status (reservations db ! i) = ''active''" by (simp_all add: ri rj r)
    ultimately have "\<not> windows_overlap (reservations db ! i) r"
      using r(2,3) by (rule no_query_no_overlap)
    then show ?thesis by (simp add: ri rj)
  qed
qed

lemma no_active_overlap_end:
  assumes "no_active_overlap db" and "end_reservation db rid = Inr (db', r')"
  shows "no_active_overlap db'"
  unfolding no_active_overlap_def
proof (intro allI impI)
  from assms(2) obtain r where
    "get_reservation db rid = Some r" and "r_status r = ''active''" and
    db': "db' = db\<lparr>spots := set_available (r_spot_id r) True (spots db),
                  reservations := set_status rid ''ended'' (reservations db)\<rparr>"
    by (rule end_reservation_InrE)
  have rs: "reservations db' = set_status rid ''ended'' (reservations db)" by (simp add: db')
  have same: "reservations db' ! n = reservations db ! n"
    if "n < length (reservations db)" "r_status (reservations db' ! n) = ''active''" for n
  proof (cases "r_id (reservations db ! n) = rid")
    case True
    with that(1) have "r_status (reservations db' ! n) = ''ended''"
      by (simp add: rs nth_set_status)
    with that(2) have "''ended'' = ''active''" by (simp only:)
    then show ?thesis by simp
  next
    case False
    with that(1) show ?thesis by (simp add: rs nth_set_status)
  qed
  fix i j
  assume a: "i < j \<and> j < length (reservations db') \<and>
      r_status (reservations db' ! i) = ''active'' \<and>
      r_status (reservations db' ! j) = ''active'' \<and>
      r_spot_id (reservations db' ! i) = r_spot_id (reservations db' ! j)"
  then have len: "j < length (reservations db)" "i < length (reservations db)"
    by (simp_all add: rs length_set_status)
  from a have acti: "r_status (reservations db' ! i) = ''active''"
    and actj: "r_status (reservations db' ! j) = ''active''" by blast+
  from len(2) acti have ei: "reservations db' ! i = reservations db ! i" by (rule same)
  from len(1) actj have ej: "reservations db' ! j = reservations db ! j" by (rule same)
  from assms(1) have "i < j \<and> j < length (reservations db) \<and>
      r_status (reservations db ! i) = ''active'' \<and>
      r_status (reservations db ! j) = ''active'' \<and>
      r_spot_id (reservations db ! i) = r_spot_id (reservations db ! j) \<longrightarrow>
      \<not> windows_overlap (reservations db ! i) (reservations db ! j)"
    unfolding no_active_overlap_def by blast
  moreover from a len have "i < j \<and> j < length (reservations db) \<and>
      r_status (reservations db ! i) = ''active'' \<and>
      r_status (reservations db ! j) = ''active'' \<and>
      r_spot_id (reservations db ! i) = r_spot_id (reservations db ! j)"
    unfolding ei ej by blast
  ultimately show "\<not> windows_overlap (reservations db' ! i) (reservations db' ! j)"
    unfolding ei ej by blast
qed

lemma reachable_no_active_overlap: "reachable db \<Longrightarrow> no_active_overlap db"
proof (induction rule: reachable.induct)
  case reach_empty
  show ?case by (simp add: no_active_overlap_def empty_db_def)
next
  case (reach_lot db name latitude longitude db' lot)
  from reach_lot.hyps(2) have "reservations db' = reservations db"
    by (auto simp: createLot_unfold)
  with reach_lot.IH show ?case by (simp add: no_active_overlap_def)
next
  case (reach_spot db lot_id number ty db' spot)
  from createSpot_InrD(2) [OF reach_spot.hyps(2)] have "reservations db' = reservations db"
    by simp
  with reach_spot.IH show ?case by (simp add: no_active_overlap_def)
next
  case (reach_release db spot_id db' spot)
  from release_spot_InrD [OF reach_release.hyps(2)] have "reservations db' = reservations db"
    by simp
  with reach_release.IH show ?case by (simp add: no_active_overlap_def)
next
  case (reach_reserve db spot_id st et plate db' r)
  then show ?case by (blast intro: no_active_overlap_reserve)
next
  case (reach_end db reservation_id db' r)
  then show ?case by (blast intro: no_active_overlap_end)
qed

lemma windows_overlap_sym: "windows_overlap a b = windows_overlap b a"
  by (auto simp: windows_overlap_def)


section \<open>Interleaved reservation requests\<close>

lemma create_reservation_split:
  "create_reservation db payload =
     (case create_reservation_check db payload of
        Inl e \<Rightarrow> Inl e
      | Inr spot \<Rightarrow> Inr (create_reservation_commit db payload))"
  by (simp add: create_reservation_def create_reservation_check_def
      create_reservation_commit_def Let_def split: option.split)

lemma create_reservation_commitD:
  assumes "create_reservation_commit db payload = (db', r)"
  shows "r_id r = reservation_seq db" and "r_spot_id r = rc_spot_id payload"
    and "r_status r = ''active''"
    and "reservations db' = reservations db @ [r]"
    and "reservation_seq db' = reservation_seq db + 1"
    and "spots db' = set_available (rc_spot_id payload) False (spots db)"
  using assms by (auto simp: create_reservation_commit_def Let_def)

text \<open>Requests served one at a time are a special case.\<close>

lemma reachable_interleaved: "reachable db \<Longrightarrow> interleaved db []"
proof (induction rule: reachable.induct)
  case reach_empty
  show ?case by (rule il_empty)
next
  case (reach_lot db name latitude longitude db' lot)
  then show ?case by (blast intro: il_lot)
next
  case (reach_spot db lot_id number ty db' spot)
  then show ?case by (blast intro: il_spot)
next
  case (reach_release db spot_id db' spot)
  then show ?case by (blast intro: il_release)
next
  case (reach_reserve db spot_id st et plate db' r)
  from reach_reserve.hyps(2) obtain payload where
    p: "ReserveCreate spot_id st et plate = Inr payload"
    and c: "create_reservation db payload = Inr (db', r)"
    by (cases "ReserveCreate spot_id st et plate") (simp_all add: createReservation_def)
  from c obtain spot where chk: "create_reservation_check db payload = Inr spot"
    and com: "create_reservation_commit db payload = (db', r)"
    unfolding create_reservation_split
    by (cases "create_reservation_check db payload") simp_all
  from reach_reserve.IH p chk have "interleaved db [payload]" by (rule il_check)
  then have "interleaved db' (remove1 payload [payload])"
    using _ com by (rule il_commit) simp
  then show ?case by simp
next
  case (reach_end db reservation_id db' r)
  then show ?case by (blast intro: il_end)
qed

text \<open>
  Two identical requests for the free spot both pass the overlap query and both write:
  the spot has two active reservations of the same window.
\<close>

lemma reachable_db_spot: "reachable db_spot"
  by (rule reach_spot [OF reach_lot [OF reach_empty scenario_lot] scenario_spot])

lemma ReserveCreate_req1: "ReserveCreate 1 (at_hour 11) (at_hour 12) ''KA01'' = Inr req1"
  by (simp add: ReserveCreate_def check_order_def dt_le_at_hour req1_def)

lemma check_req1: "create_reservation_check db_spot req1 = Inr spot1"
  by (simp add: create_reservation_check_def get_spot_def db_spot_def spot1_def req1_def)

lemma commit_req1_first: "create_reservation_commit db_spot req1 = (db_reserved, res1)"
  by (simp add: create_reservation_commit_def Let_def req1_def iso_at_hour set_available_def
      db_spot_def db_reserved_def spot1_def res1_def)

lemma commit_req1_second:
  "create_reservation_commit db_reserved req1 = (db_race, res1\<lparr>r_id := 2\<rparr>)"
  by (simp add: create_reservation_commit_def Let_def req1_def iso_at_hour set_available_def
      db_reserved_def db_race_def spot1_def res1_def)

lemma interleaved_db_race: "interleaved db_race []"
proof -
  have "interleaved db_spot []" by (rule reachable_interleaved [OF reachable_db_spot])
  then have "interleaved db_spot [req1]" using ReserveCreate_req1 check_req1 by (rule il_check)
  then have "interleaved db_spot [req1, req1]"
    using ReserveCreate_req1 check_req1 by (rule il_check)
  then have "interleaved db_reserved (remove1 req1 [req1, req1])"
    using _ commit_req1_first by (rule il_commit) simp
  then have "interleaved db_reserved [req1]" by simp
  then have "interleaved db_race (remove1 req1 [req1])"
    using _ commit_req1_second by (rule il_commit) simp
  then show ?thesis by simp
qed

lemma interleaved_requests_overlap:
  "interleaved db_race [] \<and>
   res1 \<in> set (active_on db_race 1) \<and> res1\<lparr>r_id := 2\<rparr> \<in> set (active_on db_race 1) \<and>
   r_id res1 \<noteq> r_id (res1\<lparr>r_id := 2\<rparr>) \<and> windows_overlap res1 (res1\<lparr>r_id := 2\<rparr>)"
proof (intro conjI)
  show "interleaved db_race []" by (rule interleaved_db_race)
  show "res1 \<in> set (active_on db_race 1)" "res1\<lparr>r_id := 2\<rparr> \<in> set (active_on db_race 1)"
    by (simp_all add: active_on_def db_race_def res1_def)
  show "r_id res1 \<noteq> r_id (res1\<lparr>r_id := 2\<rparr>)" by (simp add: res1_def)
  show "windows_overlap res1 (res1\<lparr>r_id := 2\<rparr>)"
    by (simp add: windows_overlap_def res1_def)
qed

text \<open>
  Interleaving does not break the other invariant: a write sets the flag and appends the
  active row together.
\<close>

lemma keys_ok_commit:
  assumes "keys_ok db" and "create_reservation_commit db payload = (db', r)"
  shows "keys_ok db'"
proof -
  note d = create_reservation_commitD [OF assms(2)]
  from assms(1) have old: "\<forall>x\<in>set (reservations db). r_id x < reservation_seq db"
    and dist: "distinct (map r_id (reservations db))" by (simp_all add: keys_ok_def)
  from old d(1) have "r_id r \<notin> r_id ` set (reservations db)" by auto
  with dist have "distinct (map r_id (reservations db'))" by (simp add: d(4))
  moreover from old d(1) have "\<forall>x\<in>set (reservations db'). r_id x < reservation_seq db'"
    by (auto simp: d(4) d(5))
  ultimately show ?thesis by (simp add: keys_ok_def)
qed

lemma unavailable_has_active_commit:
  assumes "unavailable_has_active db" and "create_reservation_commit db payload = (db', r)"
  shows "unavailable_has_active db'"
  unfolding unavailable_has_active_def
proof (intro ballI impI)
  note d = create_reservation_commitD [OF assms(2)]
  fix s assume s: "s \<in> set (spots db')" "\<not> s_is_available s"
  show "active_on db' (s_id s) \<noteq> []"
  proof (cases "s_id s = rc_spot_id payload")
    case True
    with d(2,3) show ?thesis by (simp add: active_on_nonempty d(4))
  next
    case False
    with s(1) have "s \<in> set (spots db)" unfolding d(6) by (rule set_available_other)
    with assms(1) s(2) have "active_on db (s_id s) \<noteq> []"
      by (simp add: unavailable_has_active_def)
    then show ?thesis by (auto simp: active_on_nonempty d(4))
  qed
qed

lemma interleaved_invariants:
  "interleaved db ps \<Longrightarrow> keys_ok db \<and> unavailable_has_active db"
proof (induction rule: interleaved.induct)
  case il_empty
  have "unavailable_has_active empty_db" by (simp add: unavailable_has_active_def empty_db_def)
  with keys_ok_empty show ?case by simp
next
  case (il_lot db ps name latitude longitude db' lot)
  from il_lot.hyps(2) have e: "reservations db' = reservations db" "spots db' = spots db"
    "reservation_seq db' = reservation_seq db"
    by (auto simp: createLot_unfold)
  from il_lot.IH e(1,3) have "keys_ok db'" by (simp add: keys_ok_same)
  moreover from e(2) have "\<forall>s\<in>set (spots db'). s \<in> set (spots db) \<or> s_is_available s"
    by simp
  with il_lot.IH e(1) have "unavailable_has_active db'"
    by (blast intro: unavailable_has_active_new_spots)
  ultimately show ?case by simp
next
  case (il_spot db ps lot_id number ty db' spot)
  note d = createSpot_InrD [OF il_spot.hyps(2)]
  from d(1) have "s_is_available spot" by (simp add: new_spot_def)
  with d(2) have e: "reservations db' = reservations db"
    "reservation_seq db' = reservation_seq db"
    "\<forall>s\<in>set (spots db'). s \<in> set (spots db) \<or> s_is_available s" by auto
  from il_spot.IH e(1,2) have "keys_ok db'" by (simp add: keys_ok_same)
  moreover from il_spot.IH e(1,3) have "unavailable_has_active db'"
    by (blast intro: unavailable_has_active_new_spots)
  ultimately show ?case by simp
next
  case (il_release db ps spot_id db' spot)
  from release_spot_InrD [OF il_release.hyps(2)]
  have rs: "reservations db' = reservations db" "reservation_seq db' = reservation_seq db"
    and sps: "spots db' = set_available spot_id True (spots db)" by simp_all
  have f: "\<forall>s\<in>set (spots db'). s \<in> set (spots db) \<or> s_is_available s"
    unfolding sps using set_available_at [of _ spot_id True "spots db"]
      set_available_other [of _ spot_id True "spots db"] by blast
  from il_release.IH rs have "keys_ok db'" by (simp add: keys_ok_same)
  moreover from il_release.IH rs(1) f have "unavailable_has_active db'"
    by (blast intro: unavailable_has_active_new_spots)
  ultimately show ?case by simp
next
  case (il_end db ps reservation_id db' r)
  then show ?case by (blast intro: keys_ok_end unavailable_has_active_end)
next
  case (il_check db ps spot_id st et plate payload spot)
  then show ?case by simp
next
  case (il_commit db ps payload db' r)
  then show ?case by (blast intro: keys_ok_commit unavailable_has_active_commit)
qed


lemma reachable_db_released: "reachable db_released"
  by (rule reach_release [OF reachable_db_reserved scenario_released])

lemma reachable_db_reserved_twice: "reachable db_reserved_twice"
  by (rule reach_reserve [OF reachable_db_reserved scenario_reserved_twice])

lemma active_on_db_reserved: "active_on db_reserved 1 = [res1]"
  by (simp add: active_on_def db_reserved_def res1_def)

lemma active_on_db_released: "active_on db_released 1 = [res1]"
  by (simp add: active_on_def db_released_def res1_def)

lemma active_on_db_reserved_twice: "active_on db_reserved_twice 1 = [res1, res2]"
  by (simp add: active_on_def db_reserved_twice_def res1_def res2_def)

text \<open>
  C3 (as stated, refuted): "in every reachable state a spot's availability flag is false
  if and only if the spot has an active reservation". The state reached by creating a
  lot, a spot and a reservation and then calling \<^verbatim>\<open>release_spot\<close> has the spot available
  while its reservation is active.
\<close>

theorem availability_iff_active_counterexample:
  "reachable db_released \<and> \<not> availability_iff_active db_released"
proof
  show "reachable db_released" by (rule reachable_db_released)
  have "spot1 \<in> set (spots db_released)" "s_is_available spot1" "s_id spot1 = 1"
    by (simp_all add: db_released_def spot1_def)
  moreover have "active_on db_released 1 \<noteq> []" by (simp add: active_on_db_released)
  ultimately show "\<not> availability_iff_active db_released"
    unfolding availability_iff_active_def by force
qed

text \<open>
  C3 (amended): in every state reachable by the public operations, a spot whose
  availability flag is false has at least one reservation with status active. (The
  converse is not promised: release_spot sets the flag to true without looking at the
  reservations.) The same holds of the states reached by interleaved requests (lemma
  \<open>interleaved_invariants\<close>).
\<close>

theorem unavailable_spot_has_active_reservation:
  "reachable db \<Longrightarrow> \<forall>s\<in>set (spots db). \<not> s_is_available s \<longrightarrow> active_on db (s_id s) \<noteq> []"
  using reachable_unavailable_has_active [of db] by (simp add: unavailable_has_active_def)

theorem unavailable_spot_has_active_reservation_witness:
  "reachable db_reserved \<and>
   spot1\<lparr>s_is_available := False\<rparr> \<in> set (spots db_reserved) \<and>
   \<not> s_is_available (spot1\<lparr>s_is_available := False\<rparr>) \<and>
   active_on db_reserved (s_id (spot1\<lparr>s_is_available := False\<rparr>)) \<noteq> []"
proof -
  have m: "spot1\<lparr>s_is_available := False\<rparr> \<in> set (spots db_reserved)"
    by (simp add: db_reserved_def)
  have n: "\<not> s_is_available (spot1\<lparr>s_is_available := False\<rparr>)" by simp
  from unavailable_spot_has_active_reservation [OF reachable_db_reserved] m n
  have "active_on db_reserved (s_id (spot1\<lparr>s_is_available := False\<rparr>)) \<noteq> []" by blast
  with reachable_db_reserved m n show ?thesis by blast
qed

text \<open>
  C4 (as stated, refuted): "in every reachable state each spot has at most one active
  reservation". After reservations of spot 1 from 11:00 to 12:00 and from 13:00 to 14:00
  the spot has two active reservations.
\<close>

theorem at_most_one_active_counterexample:
  "reachable db_reserved_twice \<and> \<not> at_most_one_active db_reserved_twice"
proof
  show "reachable db_reserved_twice" by (rule reachable_db_reserved_twice)
  have "spot1\<lparr>s_is_available := False\<rparr> \<in> set (spots db_reserved_twice)"
    by (simp add: db_reserved_twice_def)
  moreover have "s_id (spot1\<lparr>s_is_available := False\<rparr>) = 1" by (simp add: spot1_def)
  moreover have "length (active_on db_reserved_twice 1) = 2"
    by (simp add: active_on_db_reserved_twice)
  ultimately show "\<not> at_most_one_active db_reserved_twice"
    unfolding at_most_one_active_def by force
qed

text \<open>
  C4 (amended): a spot may have several active reservations. In every state the public
  operations reach when the requests are served one at a time, any two different active
  reservations of one spot have windows that do not overlap (the windows are the stored
  ISO strings, in the order the overlap query compares them). The proviso is needed:
  the code does not make its overlap query and its insert one step, and two requests
  for one spot that interleave leave overlapping active reservations (lemma
  \<open>interleaved_requests_overlap\<close>).
\<close>

theorem active_reservations_do_not_overlap:
  "reachable db \<Longrightarrow>
   \<forall>a\<in>set (active_on db sid). \<forall>b\<in>set (active_on db sid).
     r_id a \<noteq> r_id b \<longrightarrow> \<not> windows_overlap a b"
proof (intro ballI impI)
  fix a b
  assume re: "reachable db" and a: "a \<in> set (active_on db sid)"
    and b: "b \<in> set (active_on db sid)" and ne: "r_id a \<noteq> r_id b"
  from re have inv: "no_active_overlap db" by (rule reachable_no_active_overlap)
  from a b have ain: "a \<in> set (reservations db)" and bin: "b \<in> set (reservations db)"
    and act: "r_status a = ''active''" "r_status b = ''active''"
    and sp: "r_spot_id a = r_spot_id b"
    by (simp_all add: set_active_on)
  from ain obtain i where i: "i < length (reservations db)" "reservations db ! i = a"
    by (auto simp: in_set_conv_nth)
  from bin obtain j where j: "j < length (reservations db)" "reservations db ! j = b"
    by (auto simp: in_set_conv_nth)
  from ne i(2) j(2) have "i \<noteq> j" by auto
  then consider "i < j" | "j < i" by linarith
  then show "\<not> windows_overlap a b"
  proof cases
    case 1
    from inv have "i < j \<and> j < length (reservations db) \<and>
        r_status (reservations db ! i) = ''active'' \<and>
        r_status (reservations db ! j) = ''active'' \<and>
        r_spot_id (reservations db ! i) = r_spot_id (reservations db ! j) \<longrightarrow>
        \<not> windows_overlap (reservations db ! i) (reservations db ! j)"
      unfolding no_active_overlap_def by blast
    with 1 i j act sp show ?thesis by simp
  next
    case 2
    from inv have "j < i \<and> i < length (reservations db) \<and>
        r_status (reservations db ! j) = ''active'' \<and>
        r_status (reservations db ! i) = ''active'' \<and>
        r_spot_id (reservations db ! j) = r_spot_id (reservations db ! i) \<longrightarrow>
        \<not> windows_overlap (reservations db ! j) (reservations db ! i)"
      unfolding no_active_overlap_def by blast
    with 2 i j act sp have "\<not> windows_overlap b a" by simp
    then show ?thesis by (simp add: windows_overlap_sym)
  qed
qed

theorem active_reservations_do_not_overlap_witness:
  "reachable db_reserved_twice \<and>
   res1 \<in> set (active_on db_reserved_twice 1) \<and> res2 \<in> set (active_on db_reserved_twice 1) \<and>
   r_id res1 \<noteq> r_id res2 \<and> \<not> windows_overlap res1 res2"
proof -
  have m: "res1 \<in> set (active_on db_reserved_twice 1)"
    "res2 \<in> set (active_on db_reserved_twice 1)"
    by (simp_all add: active_on_db_reserved_twice)
  have n: "r_id res1 \<noteq> r_id res2" by (simp add: res1_def res2_def)
  from active_reservations_do_not_overlap [OF reachable_db_reserved_twice, of 1] m n
  have "\<not> windows_overlap res1 res2" by blast
  with reachable_db_reserved_twice m n show ?thesis by blast
qed


section \<open>The overlap test at the boundary\<close>

lemma get_spot_db_reserved: "get_spot db_reserved 1 = Some (spot1\<lparr>s_is_available := False\<rparr>)"
  by (simp add: get_spot_def db_reserved_def spot1_def)

lemma reservations_db_reserved: "reservations db_reserved = [res1]"
  by (simp add: db_reserved_def)

text \<open>
  The flags of the spots do not enter the decision of \<open>createReservation\<close>: with any
  other flags the same error is raised or the same reservation is returned.
\<close>

lemma find_id_map_flags:
  "find (\<lambda>s. s_id s = i) (map (\<lambda>s. s\<lparr>s_is_available := f s\<rparr>) ss) =
     map_option (\<lambda>s. s\<lparr>s_is_available := f s\<rparr>) (find (\<lambda>s. s_id s = i) ss)"
  by (induction ss) simp_all

lemma createReservation_ignores_availability:
  "map_sum id snd
     (createReservation (db\<lparr>spots := map (\<lambda>s. s\<lparr>s_is_available := f s\<rparr>) (spots db)\<rparr>)
        sid st et plate) =
   map_sum id snd (createReservation db sid st et plate)"
  by (cases "find (\<lambda>s. s_id s = sid) (spots db)")
    (simp_all add: createReservation_unfold get_spot_def find_id_map_flags new_reservation_def
      split: option.split)

text \<open>
  C1 (the code departs from the claim): "createReservation fails with Conflict exactly
  when an active reservation of the spot has \<open>start < new.end\<close> and \<open>end > new.start\<close>; a
  window that only touches an existing one, \<open>new.end = existing.start\<close> included, is
  accepted". Spot 1 is reserved from 11:00 to 12:00. The request from 10:00 to 11:00
  touches that window at its start: no active reservation of the spot passes the
  specification's test, and yet the request is refused with 409, because the query
  compares \<^verbatim>\<open>start_time <= et\<close>. The request from 12:00 to 13:00, which touches the window
  at its end, is accepted.
\<close>

theorem createReservation_touching_start_conflict:
  "filter (spec_overlap (isoformat (at_hour 10)) (isoformat (at_hour 11)))
     (active_on db_reserved 1) = [] \<and>
   \<not> dt_le (at_hour 11) (at_hour 10) \<and>
   createReservation db_reserved 1 (at_hour 10) (at_hour 11) ''MH02'' =
     Inl (HTTPException 409 ''Spot already reserved for the selected time range'') \<and>
   succeeds (createReservation db_reserved 1 (at_hour 12) (at_hour 13) ''MH02'')"
proof (intro conjI)
  show "filter (spec_overlap (isoformat (at_hour 10)) (isoformat (at_hour 11)))
     (active_on db_reserved 1) = []"
    by (simp add: active_on_db_reserved iso_at_hour spec_overlap_def res1_def)
  show "\<not> dt_le (at_hour 11) (at_hour 10)" by (simp add: dt_le_at_hour)
  show "createReservation db_reserved 1 (at_hour 10) (at_hour 11) ''MH02'' =
     Inl (HTTPException 409 ''Spot already reserved for the selected time range'')"
    by (simp add: createReservation_unfold dt_le_at_hour get_spot_db_reserved iso_at_hour
        overlap_query_def reservations_db_reserved res1_def)
  show "succeeds (createReservation db_reserved 1 (at_hour 12) (at_hour 13) ''MH02'')"
    by (simp add: createReservation_unfold dt_le_at_hour get_spot_db_reserved iso_at_hour
        overlap_query_def reservations_db_reserved res1_def succeeds_def)
qed

text \<open>
  C10 (the code departs from the claim): "createReservation never reads the availability
  flag: whenever the spot exists and no active reservation overlaps the requested window,
  the reservation is created, also when the spot is unavailable". The flag is indeed
  never read (lemma \<open>createReservation_ignores_availability\<close>), but spot 1, unavailable
  and reserved from 11:00 to 12:00, cannot be reserved from 09:00 to 11:00, although no
  active reservation overlaps that window by the specification's test: the same
  \<^verbatim>\<open>start_time <= et\<close> of the overlap query refuses the request.
\<close>

theorem createReservation_unavailable_touching_refused:
  "get_spot db_reserved 1 = Some (spot1\<lparr>s_is_available := False\<rparr>) \<and>
   \<not> s_is_available (spot1\<lparr>s_is_available := False\<rparr>) \<and>
   filter (spec_overlap (isoformat (at_hour 9)) (isoformat (at_hour 11)))
     (active_on db_reserved 1) = [] \<and>
   \<not> succeeds (createReservation db_reserved 1 (at_hour 9) (at_hour 11) ''DL03'')"
proof (intro conjI)
  show "get_spot db_reserved 1 = Some (spot1\<lparr>s_is_available := False\<rparr>)"
    by (rule get_spot_db_reserved)
  show "\<not> s_is_available (spot1\<lparr>s_is_available := False\<rparr>)" by simp
  show "filter (spec_overlap (isoformat (at_hour 9)) (isoformat (at_hour 11)))
     (active_on db_reserved 1) = []"
    by (simp add: active_on_db_reserved iso_at_hour spec_overlap_def res1_def)
  show "\<not> succeeds (createReservation db_reserved 1 (at_hour 9) (at_hour 11) ''DL03'')"
    by (simp add: createReservation_unfold dt_le_at_hour get_spot_db_reserved iso_at_hour
        overlap_query_def reservations_db_reserved res1_def succeeds_def)
qed


section \<open>Nearby search\<close>

text \<open>In the reals the argument of the square root and the arc sine is between 0 and 1.\<close>

lemma haversine_arg_range:
  "0 \<le> haversine_arg lat1 lon1 lat2 lon2 \<and> haversine_arg lat1 lon1 lat2 lon2 \<le> 1"
proof -
  define p1 p2 y where "p1 = radians lat1" and "p2 = radians lat2"
    and "y = radians (lon2 - lon1) / 2"
  define t u v where "t = (sin y)\<^sup>2" and "u = cos (p2 - p1)" and "v = cos (p1 + p2)"
  have dphi: "radians (lat2 - lat1) = p2 - p1"
    by (simp add: radians_def p1_def p2_def diff_divide_distrib left_diff_distrib)
  have a: "haversine_arg lat1 lon1 lat2 lon2 = (sin ((p2 - p1) / 2))\<^sup>2 + cos p1 * cos p2 * t"
    by (simp add: haversine_arg_def Let_def dphi p1_def p2_def y_def t_def)
  have h: "2 * ((p2 - p1) / 2) = p2 - p1" by simp
  have "cos (p2 - p1) = 1 - 2 * (sin ((p2 - p1) / 2))\<^sup>2"
    using cos_double_sin [of "(p2 - p1) / 2"] unfolding h .
  then have s2: "(sin ((p2 - p1) / 2))\<^sup>2 = (1 - u) / 2" by (simp add: u_def)
  have "u + v = 2 * (cos p1 * cos p2)" by (simp add: u_def v_def cos_diff cos_add)
  then have cc: "cos p1 * cos p2 = (u + v) / 2" by simp
  have t0: "0 \<le> t" by (simp add: t_def)
  have "(sin y)\<^sup>2 = 1 - (cos y)\<^sup>2" by (rule sin_squared_eq)
  then have t1: "t \<le> 1" by (simp add: t_def)
  have u1: "u \<le> 1" "- 1 \<le> u" and v1: "v \<le> 1" "- 1 \<le> v" by (simp_all add: u_def v_def)
  have e: "haversine_arg lat1 lon1 lat2 lon2 = ((1 - t) * (1 - u) + t * (1 + v)) / 2"
    unfolding a s2 cc by (simp add: field_simps)
  have e': "1 - haversine_arg lat1 lon1 lat2 lon2 = ((1 - t) * (1 + u) + t * (1 - v)) / 2"
    unfolding a s2 cc by (simp add: field_simps)
  from t0 t1 u1 v1 have "0 \<le> (1 - t) * (1 - u)" "0 \<le> t * (1 + v)"
    "0 \<le> (1 - t) * (1 + u)" "0 \<le> t * (1 - v)" by simp_all
  then have "0 \<le> ((1 - t) * (1 - u) + t * (1 + v)) / 2"
    "0 \<le> ((1 - t) * (1 + u) + t * (1 - v)) / 2" by simp_all
  with e e' show ?thesis by linarith
qed




























end
